theory Spec2Isabelle
  imports Complex_Main "HOL-Library.Multiset" "HOL-Library.Product_Lexorder"
begin

section \<open>Badminton matcher: the session component of App.tsx\<close>

text \<open>
  The component keeps its whole state in React state cells and changes it in event
  handlers. The model below is a record of those cells together with an explicit object
  store: \<open>Player\<close> values are JavaScript objects, the roster array and the team arrays of
  every match hold references to them, and \<open>generateMatches\<close> writes to the objects in
  place (\<open>player.gamesPlayed++\<close>). A reference is an address of the store.

  Numbers that the handlers only count with (games played, round number, court count)
  are integers; the 53-bit precision limit of JavaScript numbers is not modelled.
  Strings are lists of UTF-16 code units.
\<close>

subsection \<open>Strings\<close>

type_synonym jsstring = "nat list"

definition js :: "string \<Rightarrow> jsstring" where
  "js cs = map of_char cs"

text \<open>\<open>Number.prototype.toString\<close> on a non-negative integer: the decimal digits.\<close>

fun toString :: "nat \<Rightarrow> jsstring" where
  "toString n = (if n < 10 then [48 + n] else toString (n div 10) @ [48 + n mod 10])"

declare toString.simps [simp del]

text \<open>
  The code units that \<open>String.prototype.trim\<close> and \<open>parseInt\<close> strip: ECMAScript's
  WhiteSpace and LineTerminator productions.
\<close>

definition isWhiteSpace :: "nat \<Rightarrow> bool" where
  "isWhiteSpace c \<longleftrightarrow>
     c = 9 \<or> c = 10 \<or> c = 11 \<or> c = 12 \<or> c = 13 \<or> c = 32 \<or> c = 160 \<or> c = 5760 \<or>
     (8192 \<le> c \<and> c \<le> 8202) \<or> c = 8232 \<or> c = 8233 \<or> c = 8239 \<or> c = 8287 \<or>
     c = 12288 \<or> c = 65279"

definition trim :: "jsstring \<Rightarrow> jsstring" where
  "trim s = rev (dropWhile isWhiteSpace (rev (dropWhile isWhiteSpace s)))"

subsection \<open>Data model (the interfaces of App.tsx)\<close>

datatype SkillLevel = Beginner | Intermediate | ProPlayer

datatype PlayingType = Single | Double

record Player =
  id_player :: jsstring
  name :: jsstring
  skill :: SkillLevel
  gamesPlayed :: int
  isOnLeave :: bool

type_synonym ref = nat

record Match =
  id_match :: jsstring
  court :: int
  team1 :: "ref list"
  team2 :: "ref list"
  round_match :: int

record MatchHistory =
  round_entry :: int
  matches :: "Match list"
  timestamp :: nat

text \<open>
  The state cells of the component. \<open>heap\<close> is the object store and \<open>fresh\<close> the next
  unused address: every object literal of a handler is allocated there.
\<close>

record App =
  heap :: "ref \<Rightarrow> Player"
  fresh :: ref
  players :: "ref list"
  playerName :: jsstring
  playerSkill :: SkillLevel
  courts :: int
  playingType :: PlayingType
  currentMatches :: "Match list"
  history :: "MatchHistory list"
  roundNumber :: int
  showHistory :: bool
  advancedMode :: bool

subsection \<open>Roster handlers\<close>

text \<open>\<open>addPlayer\<close>; \<open>now\<close> is what \<open>Date.now()\<close> returns in this call.\<close>

definition addPlayer :: "nat \<Rightarrow> App \<Rightarrow> App" where
  "addPlayer now s =
     (if trim (playerName s) \<noteq> [] then
        let newPlayer = \<lparr> id_player = toString now,
                          name = trim (playerName s),
                          skill = (if advancedMode s then playerSkill s else Intermediate),
                          gamesPlayed = 0,
                          isOnLeave = False \<rparr>
        in s \<lparr> heap := (heap s)(fresh s := newPlayer),
               fresh := Suc (fresh s),
               players := players s @ [fresh s],
               playerName := [] \<rparr>
      else s)"

definition removePlayer :: "jsstring \<Rightarrow> App \<Rightarrow> App" where
  "removePlayer i s = s \<lparr> players := filter (\<lambda>p. id_player (heap s p) \<noteq> i) (players s) \<rparr>"

text \<open>
  \<open>toggleLeave\<close> maps over the roster; a player with the given id is replaced by a new
  object (\<open>{ ...p, isOnLeave: !p.isOnLeave }\<close>), every other reference is kept.
\<close>

fun toggleMap :: "jsstring \<Rightarrow> ref list \<Rightarrow> (ref \<Rightarrow> Player) \<Rightarrow> ref \<Rightarrow> ref list \<times> (ref \<Rightarrow> Player) \<times> ref" where
  "toggleMap i [] h f = ([], h, f)"
| "toggleMap i (p # ps) h f =
     (if id_player (h p) = i then
        (case toggleMap i ps (h(f := (h p)\<lparr> isOnLeave := \<not> isOnLeave (h p) \<rparr>)) (Suc f) of
           (qs, h', f') \<Rightarrow> (f # qs, h', f'))
      else
        (case toggleMap i ps h f of (qs, h', f') \<Rightarrow> (p # qs, h', f')))"

definition toggleLeave :: "jsstring \<Rightarrow> App \<Rightarrow> App" where
  "toggleLeave i s =
     (case toggleMap i (players s) (heap s) (fresh s) of
        (qs, h', f') \<Rightarrow> s \<lparr> heap := h', fresh := f', players := qs \<rparr>)"

subsection \<open>generateMatches\<close>

definition activePlayers :: "App \<Rightarrow> ref list" where
  "activePlayers s = filter (\<lambda>p. \<not> isOnLeave (heap s p)) (players s)"

definition playersPerMatch :: "PlayingType \<Rightarrow> nat" where
  "playersPerMatch t = (if t = Single then 2 else 4)"

definition skillOrder :: "SkillLevel \<Rightarrow> int" where
  "skillOrder k = (case k of Beginner \<Rightarrow> 0 | Intermediate \<Rightarrow> 1 | ProPlayer \<Rightarrow> 2)"

text \<open>The comparator handed to \<open>sort\<close>.\<close>

definition comparePlayers :: "Player \<Rightarrow> Player \<Rightarrow> int" where
  "comparePlayers a b =
     (if gamesPlayed a \<noteq> gamesPlayed b then gamesPlayed a - gamesPlayed b
      else skillOrder (skill a) - skillOrder (skill b))"

text \<open>
  \<open>Array.prototype.sort\<close> with a comparator. ECMAScript (since 2019) requires the sort
  to be stable, and for a consistent comparator the stable sorted arrangement is
  unique, so the engine's algorithm is modelled by a stable insertion sort: an element
  goes in front of the first element it does not compare greater than.
\<close>

fun insertBy :: "('a \<Rightarrow> 'a \<Rightarrow> int) \<Rightarrow> 'a \<Rightarrow> 'a list \<Rightarrow> 'a list" where
  "insertBy cmp x [] = [x]"
| "insertBy cmp x (y # ys) = (if cmp x y \<le> 0 then x # y # ys else y # insertBy cmp x ys)"

fun sortBy :: "('a \<Rightarrow> 'a \<Rightarrow> int) \<Rightarrow> 'a list \<Rightarrow> 'a list" where
  "sortBy cmp [] = []"
| "sortBy cmp (x # xs) = insertBy cmp x (sortBy cmp xs)"

definition sortedPlayers :: "App \<Rightarrow> ref list" where
  "sortedPlayers s = sortBy (\<lambda>a b. comparePlayers (heap s a) (heap s b)) (activePlayers s)"

text \<open>
  \<open>Array.prototype.slice(start, stop)\<close>: a negative index counts from the end, both are
  clamped to the array, and an empty range gives the empty array.
\<close>

definition slice :: "'a list \<Rightarrow> int \<Rightarrow> int \<Rightarrow> 'a list" where
  "slice xs start stop =
     (let len = int (length xs);
          k = (if start < 0 then max (len + start) 0 else min start len);
          final = (if stop < 0 then max (len + stop) 0 else min stop len)
      in take (nat (final - k)) (drop (nat k) xs))"

text \<open>\<open>matchPlayers.forEach(player => { player.gamesPlayed++ })\<close>, on the store.\<close>

definition bumpGames :: "ref list \<Rightarrow> (ref \<Rightarrow> Player) \<Rightarrow> (ref \<Rightarrow> Player)" where
  "bumpGames ps h = fold (\<lambda>p h. h(p := (h p)\<lparr> gamesPlayed := gamesPlayed (h p) + 1 \<rparr>)) ps h"

text \<open>
  The match object built in iteration \<open>i\<close>; \<open>t\<close> is what \<open>Date.now()\<close> returns there.
  The indexing is only reached when \<open>matchPlayers\<close> has \<open>playersPerMatch\<close> elements.
\<close>

definition mkMatch :: "PlayingType \<Rightarrow> int \<Rightarrow> nat \<Rightarrow> nat \<Rightarrow> ref list \<Rightarrow> Match" where
  "mkMatch pt rn t i matchPlayers =
     \<lparr> id_match = toString t @ js ''-'' @ toString i,
       court = int i + 1,
       team1 = (if pt = Single then [matchPlayers ! 0] else [matchPlayers ! 0, matchPlayers ! 1]),
       team2 = (if pt = Single then [matchPlayers ! 1] else [matchPlayers ! 2, matchPlayers ! 3]),
       round_match = rn \<rparr>"

text \<open>
  The \<open>for\<close> loop over the courts. \<open>clock i\<close> is the reading of \<open>Date.now()\<close> in
  iteration \<open>i\<close>; the loop state is the store and the \<open>matches\<close> array.
\<close>

function matchLoop ::
  "(nat \<Rightarrow> nat) \<Rightarrow> PlayingType \<Rightarrow> int \<Rightarrow> ref list \<Rightarrow> int \<Rightarrow> nat \<Rightarrow>
   (ref \<Rightarrow> Player) \<times> Match list \<Rightarrow> (ref \<Rightarrow> Player) \<times> Match list" where
  "matchLoop clock pt rn availablePlayers c i (h, ms) =
     (if int i < c then
        let matchPlayers = slice availablePlayers (int i * int (playersPerMatch pt))
                                 ((int i + 1) * int (playersPerMatch pt))
        in if length matchPlayers = playersPerMatch pt
           then matchLoop clock pt rn availablePlayers c (Suc i)
                  (bumpGames matchPlayers h, ms @ [mkMatch pt rn (clock i) i matchPlayers])
           else matchLoop clock pt rn availablePlayers c (Suc i) (h, ms)
      else (h, ms))"
  by pat_completeness auto
termination
  by (relation "measure (\<lambda>(clock, pt, rn, av, c, i, st). nat (c - int i))") auto

declare matchLoop.simps [simp del]

definition alertText :: "PlayingType \<Rightarrow> jsstring" where
  "alertText pt = js ''Need at least '' @ toString (if pt = Single then 2 else 4)
                  @ js '' active players!''"

text \<open>
  \<open>generateMatches\<close>. The result is the text handed to \<open>alert\<close>, if any, and the state
  after the handler. \<open>stamp\<close> is the time of \<open>new Date()\<close>.
\<close>

definition generateMatches :: "(nat \<Rightarrow> nat) \<Rightarrow> nat \<Rightarrow> App \<Rightarrow> jsstring option \<times> App" where
  "generateMatches clock stamp s =
     (if int (length (activePlayers s)) < (if playingType s = Single then 2 else 4) then
        (Some (alertText (playingType s)), s)
      else
        let totalPlayersNeeded = courts s * int (playersPerMatch (playingType s));
            availablePlayers = slice (sortedPlayers s) 0 totalPlayersNeeded;
            (h', ms) = matchLoop clock (playingType s) (roundNumber s) availablePlayers
                         (courts s) 0 (heap s, [])
        in (None,
            s \<lparr> heap := h',
                currentMatches := ms,
                history := \<lparr> round_entry = roundNumber s, matches = ms, timestamp = stamp \<rparr>
                           # history s,
                players := players s,
                roundNumber := roundNumber s + 1 \<rparr>))"

subsection \<open>The other handlers\<close>

definition setPlayerName :: "jsstring \<Rightarrow> App \<Rightarrow> App" where
  "setPlayerName v s = s \<lparr> playerName := v \<rparr>"

definition setPlayerSkill :: "SkillLevel \<Rightarrow> App \<Rightarrow> App" where
  "setPlayerSkill v s = s \<lparr> playerSkill := v \<rparr>"

definition setPlayingType :: "PlayingType \<Rightarrow> App \<Rightarrow> App" where
  "setPlayingType v s = s \<lparr> playingType := v \<rparr>"

definition toggleAdvancedMode :: "App \<Rightarrow> App" where
  "toggleAdvancedMode s = s \<lparr> advancedMode := \<not> advancedMode s \<rparr>"

text \<open>
  \<open>parseInt\<close> without a radix argument, after ECMAScript: leading white space is
  skipped, a sign is read, a \<open>0x\<close> prefix selects radix 16, and the longest run of digits
  is the value. \<open>None\<close> stands for \<open>NaN\<close>.
\<close>

definition digitValue :: "nat \<Rightarrow> nat option" where
  "digitValue c =
     (if 48 \<le> c \<and> c \<le> 57 then Some (c - 48)
      else if 97 \<le> c \<and> c \<le> 122 then Some (c - 87)
      else if 65 \<le> c \<and> c \<le> 90 then Some (c - 55)
      else None)"

fun radixDigits :: "nat \<Rightarrow> jsstring \<Rightarrow> nat list" where
  "radixDigits R [] = []"
| "radixDigits R (c # cs) =
     (case digitValue c of
        Some d \<Rightarrow> if d < R then d # radixDigits R cs else []
      | None \<Rightarrow> [])"

definition parseInt :: "jsstring \<Rightarrow> int option" where
  "parseInt inputString =
     (let S = dropWhile isWhiteSpace inputString;
          negative = (S \<noteq> [] \<and> hd S = 45);
          S1 = (if S \<noteq> [] \<and> (hd S = 43 \<or> hd S = 45) then tl S else S);
          hex = (take 2 S1 = js ''0x'' \<or> take 2 S1 = js ''0X'');
          R = (if hex then 16 else 10);
          Z = radixDigits R (if hex then drop 2 S1 else S1)
      in if Z = [] then None
         else Some ((if negative then - 1 else 1) * int (foldl (\<lambda>a d. a * R + d) 0 Z)))"

text \<open>
  The \<open>onChange\<close> handler of the courts field: \<open>setCourts(parseInt(e.target.value) || 1)\<close>.
  \<open>NaN\<close> and 0 are the falsy numbers.
\<close>

definition onChangeCourts :: "jsstring \<Rightarrow> App \<Rightarrow> App" where
  "onChangeCourts v s =
     s \<lparr> courts := (case parseInt v of None \<Rightarrow> 1 | Some n \<Rightarrow> if n = 0 then 1 else n) \<rparr>"

text \<open>\<open>endDay\<close>; \<open>confirmed\<close> is the answer to \<open>window.confirm\<close>.\<close>

definition endDay :: "bool \<Rightarrow> App \<Rightarrow> App" where
  "endDay confirmed s =
     (if confirmed then
        s \<lparr> players := [], currentMatches := [], history := [], roundNumber := 1,
            courts := 1, playingType := Double, advancedMode := False \<rparr>
      else s)"

text \<open>
  The state of the first render when \<open>loadState\<close> returns its defaults: the \<open>useState\<close>
  initialisers of the component, with an empty store.
\<close>

definition blankPlayer :: Player where
  "blankPlayer = \<lparr> id_player = [], name = [], skill = Intermediate, gamesPlayed = 0,
                   isOnLeave = False \<rparr>"

definition initialApp :: App where
  "initialApp = \<lparr> heap = (\<lambda>_. blankPlayer), fresh = 0, players = [], playerName = [],
                   playerSkill = Beginner, courts = 1, playingType = Double,
                   currentMatches = [], history = [], roundNumber = 1, showHistory = False,
                   advancedMode = False \<rparr>"

subsection \<open>loadState\<close>

text \<open>
  What \<open>loadState\<close> reads is untyped: the result of \<open>JSON.parse\<close> can be any JSON value,
  and the fields of the object it returns hold whatever the expressions evaluate to.
  So this part of the model works on JavaScript values. \<open>JDate v\<close> is the object
  \<open>new Date(v)\<close>. A number is a finite value, given as a rational, an infinity (what
  \<open>JSON.parse\<close> makes of a literal beyond the range of a double) or \<open>NaN\<close>; an object is
  the list of its own properties, each key once.
\<close>

datatype jsnum = Finite rat | PosInfinity | NegInfinity | NaN

datatype jsval =
    JUndefined
  | JNull
  | JBool bool
  | JNumber jsnum
  | JString jsstring
  | JArray "jsval list"
  | JObject "(jsstring \<times> jsval) list"
  | JDate jsval

datatype exn = SyntaxError | TypeError | SecurityError

definition truthy :: "jsval \<Rightarrow> bool" where
  "truthy v = (case v of
       JUndefined \<Rightarrow> False | JNull \<Rightarrow> False | JBool b \<Rightarrow> b | JNumber n \<Rightarrow> n \<noteq> Finite 0 \<and> n \<noteq> NaN
     | JString s \<Rightarrow> s \<noteq> [] | _ \<Rightarrow> True)"

text \<open>The operator \<open>||\<close>.\<close>

definition orElse :: "jsval \<Rightarrow> jsval \<Rightarrow> jsval" where
  "orElse v d = (if truthy v then v else d)"

definition getField :: "(jsstring \<times> jsval) list \<Rightarrow> jsstring \<Rightarrow> jsval" where
  "getField kv k = (case map_of kv k of Some v \<Rightarrow> v | None \<Rightarrow> JUndefined)"

text \<open>
  Property access \<open>v.k\<close> for the names that \<open>loadState\<close> reads (\<open>players\<close>, \<open>history\<close>,
  \<open>roundNumber\<close>, \<open>courts\<close>, \<open>playingType\<close>, \<open>advancedMode\<close>, \<open>timestamp\<close>): it throws on
  \<open>undefined\<close> and \<open>null\<close>, reads an own property of an object, and is \<open>undefined\<close> on
  every other value, none of whose prototypes has such a property.
\<close>

fun member :: "jsval \<Rightarrow> jsstring \<Rightarrow> exn + jsval" where
  "member JUndefined k = Inl TypeError"
| "member JNull k = Inl TypeError"
| "member (JObject kv) k = Inr (getField kv k)"
| "member v k = Inr JUndefined"

text \<open>The own enumerable properties that the spread \<open>{ ...h }\<close> copies.\<close>

fun ownProps :: "jsval \<Rightarrow> (jsstring \<times> jsval) list" where
  "ownProps (JObject kv) = kv"
| "ownProps (JArray xs) = zip (map toString [0 ..< length xs]) xs"
| "ownProps (JString cs) = zip (map toString [0 ..< length cs]) (map (\<lambda>c. JString [c]) cs)"
| "ownProps v = []"

fun setField :: "jsstring \<Rightarrow> jsval \<Rightarrow> (jsstring \<times> jsval) list \<Rightarrow> (jsstring \<times> jsval) list" where
  "setField k v [] = [(k, v)]"
| "setField k v ((k', v') # kv) =
     (if k' = k then (k, v) # kv else (k', v') # setField k v kv)"

text \<open>
  \<open>new Date(v)\<close> converts an object argument to a primitive first (\<open>valueOf\<close>, then
  \<open>toString\<close>), and that conversion throws a \<open>TypeError\<close> when neither gives a
  primitive. For a value that came out of \<open>JSON.parse\<close> no own property is callable and
  the inherited \<open>valueOf\<close> returns the object itself, so the conversion of an object
  fails exactly when the object has an own property \<open>toString\<close>, which hides the
  inherited method. An array is converted by joining the strings of its elements, so
  it fails when the conversion of one of its elements fails; \<open>undefined\<close>, \<open>null\<close>,
  booleans, numbers and strings never fail.
\<close>

fun toPrimitiveThrows :: "jsval \<Rightarrow> bool" where
  "toPrimitiveThrows (JObject kv) = (map_of kv (js ''toString'') \<noteq> None)"
| "toPrimitiveThrows (JArray xs) = list_ex toPrimitiveThrows xs"
| "toPrimitiveThrows v = False"

text \<open>The callback of \<open>map\<close>: \<open>{ ...h, timestamp: new Date(h.timestamp) }\<close>.\<close>

definition reviveEntry :: "jsval \<Rightarrow> exn + jsval" where
  "reviveEntry h =
     (case member h (js ''timestamp'') of
        Inl e \<Rightarrow> Inl e
      | Inr t \<Rightarrow>
          if toPrimitiveThrows t then Inl TypeError
          else Inr (JObject (setField (js ''timestamp'') (JDate t) (ownProps h))))"

fun mapAll :: "('a \<Rightarrow> exn + 'b) \<Rightarrow> 'a list \<Rightarrow> exn + 'b list" where
  "mapAll f [] = Inr []"
| "mapAll f (x # xs) =
     (case f x of
        Inl e \<Rightarrow> Inl e
      | Inr y \<Rightarrow> (case mapAll f xs of Inl e \<Rightarrow> Inl e | Inr ys \<Rightarrow> Inr (y # ys)))"

text \<open>
  \<open>parsed.history?.map(...)\<close>: \<open>undefined\<close> for a missing or \<open>null\<close> history, the mapped
  array for an array, and a \<open>TypeError\<close> for anything else, which has no function \<open>map\<close>.
\<close>

definition historyMap :: "jsval \<Rightarrow> exn + jsval" where
  "historyMap hs =
     (case hs of
        JUndefined \<Rightarrow> Inr JUndefined
      | JNull \<Rightarrow> Inr JUndefined
      | JArray es \<Rightarrow> (case mapAll reviveEntry es of Inl e \<Rightarrow> Inl e | Inr rs \<Rightarrow> Inr (JArray rs))
      | _ \<Rightarrow> Inl TypeError)"

record SavedState =
  players_saved :: jsval
  history_saved :: jsval
  roundNumber_saved :: jsval
  courts_saved :: jsval
  playingType_saved :: jsval
  advancedMode_saved :: jsval

definition defaultState :: SavedState where
  "defaultState =
     \<lparr> players_saved = JArray [], history_saved = JArray [], roundNumber_saved = JNumber (Finite 1),
       courts_saved = JNumber (Finite 1), playingType_saved = JString (js ''double''),
       advancedMode_saved = JBool False \<rparr>"

text \<open>The object literal that is returned inside the \<open>try\<close> block.\<close>

definition fromParsed :: "jsval \<Rightarrow> exn + SavedState" where
  "fromParsed parsed =
     (case member parsed (js ''players'') of Inl e \<Rightarrow> Inl e | Inr pl \<Rightarrow>
     (case member parsed (js ''history'') of Inl e \<Rightarrow> Inl e | Inr hs \<Rightarrow>
     (case historyMap hs of Inl e \<Rightarrow> Inl e | Inr hm \<Rightarrow>
     (case member parsed (js ''roundNumber'') of Inl e \<Rightarrow> Inl e | Inr rn \<Rightarrow>
     (case member parsed (js ''courts'') of Inl e \<Rightarrow> Inl e | Inr cs \<Rightarrow>
     (case member parsed (js ''playingType'') of Inl e \<Rightarrow> Inl e | Inr pt \<Rightarrow>
     (case member parsed (js ''advancedMode'') of Inl e \<Rightarrow> Inl e | Inr am \<Rightarrow>
        Inr \<lparr> players_saved = orElse pl (JArray []),
              history_saved = orElse hm (JArray []),
              roundNumber_saved = orElse rn (JNumber (Finite 1)),
              courts_saved = orElse cs (JNumber (Finite 1)),
              playingType_saved = orElse pt (JString (js ''double'')),
              advancedMode_saved = orElse am (JBool False) \<rparr>)))))))"

text \<open>
  \<open>loadState\<close>. \<open>JSON_parse\<close> is the engine's parser and \<open>item\<close> the outcome of
  \<open>localStorage.getItem('badmintonState')\<close>: an exception, \<open>null\<close> or a string. Every
  exception raised inside the \<open>try\<close> block ends in the defaults after the \<open>catch\<close>.
\<close>

definition loadState :: "(jsstring \<Rightarrow> exn + jsval) \<Rightarrow> exn + jsstring option \<Rightarrow> SavedState" where
  "loadState JSON_parse item =
     (case item of
        Inl e \<Rightarrow> defaultState
      | Inr None \<Rightarrow> defaultState
      | Inr (Some saved) \<Rightarrow>
          if saved = [] then defaultState
          else (case JSON_parse saved of
                  Inl e \<Rightarrow> defaultState
                | Inr parsed \<Rightarrow>
                    (case fromParsed parsed of Inl e \<Rightarrow> defaultState | Inr r \<Rightarrow> r)))"

text \<open>
  The shapes that the interfaces \<open>Player\<close>, \<open>Match\<close>, \<open>MatchHistory\<close> and \<open>SavedState\<close>
  declare, as predicates on values.
\<close>

definition isString :: "jsval \<Rightarrow> bool" where
  "isString v = (case v of JString _ \<Rightarrow> True | _ \<Rightarrow> False)"

definition isNumber :: "jsval \<Rightarrow> bool" where
  "isNumber v = (case v of JNumber _ \<Rightarrow> True | _ \<Rightarrow> False)"

definition isBoolean :: "jsval \<Rightarrow> bool" where
  "isBoolean v = (case v of JBool _ \<Rightarrow> True | _ \<Rightarrow> False)"

definition isDate :: "jsval \<Rightarrow> bool" where
  "isDate v = (case v of JDate _ \<Rightarrow> True | _ \<Rightarrow> False)"

definition isArrayOf :: "(jsval \<Rightarrow> bool) \<Rightarrow> jsval \<Rightarrow> bool" where
  "isArrayOf P v = (case v of JArray xs \<Rightarrow> list_all P xs | _ \<Rightarrow> False)"

definition isSkillLevel :: "jsval \<Rightarrow> bool" where
  "isSkillLevel v \<longleftrightarrow>
     v = JString (js ''beginner'') \<or> v = JString (js ''intermediate'') \<or>
     v = JString (js ''pro-player'')"

definition isPlayingType :: "jsval \<Rightarrow> bool" where
  "isPlayingType v \<longleftrightarrow> v = JString (js ''single'') \<or> v = JString (js ''double'')"

definition isPlayer :: "jsval \<Rightarrow> bool" where
  "isPlayer v = (case v of
       JObject kv \<Rightarrow>
         isString (getField kv (js ''id'')) \<and> isString (getField kv (js ''name'')) \<and>
         isSkillLevel (getField kv (js ''skill'')) \<and>
         isNumber (getField kv (js ''gamesPlayed'')) \<and>
         isBoolean (getField kv (js ''isOnLeave''))
     | _ \<Rightarrow> False)"

definition isMatch :: "jsval \<Rightarrow> bool" where
  "isMatch v = (case v of
       JObject kv \<Rightarrow>
         isString (getField kv (js ''id'')) \<and> isNumber (getField kv (js ''court'')) \<and>
         isArrayOf isPlayer (getField kv (js ''team1'')) \<and>
         isArrayOf isPlayer (getField kv (js ''team2'')) \<and>
         isNumber (getField kv (js ''round''))
     | _ \<Rightarrow> False)"

definition isMatchHistory :: "jsval \<Rightarrow> bool" where
  "isMatchHistory v = (case v of
       JObject kv \<Rightarrow>
         isNumber (getField kv (js ''round'')) \<and>
         isArrayOf isMatch (getField kv (js ''matches'')) \<and>
         isDate (getField kv (js ''timestamp''))
     | _ \<Rightarrow> False)"

definition isSavedState :: "SavedState \<Rightarrow> bool" where
  "isSavedState r \<longleftrightarrow>
     isArrayOf isPlayer (players_saved r) \<and> isArrayOf isMatchHistory (history_saved r) \<and>
     isNumber (roundNumber_saved r) \<and> isNumber (courts_saved r) \<and>
     isPlayingType (playingType_saved r) \<and> isBoolean (advancedMode_saved r)"

text \<open>
  A history entry as \<open>JSON.stringify\<close> leaves it in the store: the time stamp is
  whatever the text holds, since \<open>loadState\<close> replaces it.
\<close>

definition isStoredEntry :: "jsval \<Rightarrow> bool" where
  "isStoredEntry v = (case v of
       JObject kv \<Rightarrow>
         isNumber (getField kv (js ''round'')) \<and> isArrayOf isMatch (getField kv (js ''matches''))
     | _ \<Rightarrow> False)"

text \<open>
  A stored object each of whose fields is either falsy (missing, \<open>null\<close>, \<open>false\<close>, 0 or
  the empty string) or of the declared shape.
\<close>

definition fieldsFalsyOrTyped :: "(jsstring \<times> jsval) list \<Rightarrow> bool" where
  "fieldsFalsyOrTyped kv \<longleftrightarrow>
     (\<not> truthy (getField kv (js ''players'')) \<or> isArrayOf isPlayer (getField kv (js ''players''))) \<and>
     (\<not> truthy (getField kv (js ''history'')) \<or> isArrayOf isStoredEntry (getField kv (js ''history''))) \<and>
     (\<not> truthy (getField kv (js ''roundNumber'')) \<or> isNumber (getField kv (js ''roundNumber''))) \<and>
     (\<not> truthy (getField kv (js ''courts'')) \<or> isNumber (getField kv (js ''courts''))) \<and>
     (\<not> truthy (getField kv (js ''playingType'')) \<or> isPlayingType (getField kv (js ''playingType''))) \<and>
     (\<not> truthy (getField kv (js ''advancedMode'')) \<or> isBoolean (getField kv (js ''advancedMode'')))"

subsection \<open>Notions used in the statements\<close>

text \<open>
  The number of courts that get a match: the loop runs \<open>courts\<close> times (not at all for a
  court count below 1) and fills a court while a whole group is left.
\<close>

definition courtsUsed :: "App \<Rightarrow> nat" where
  "courtsUsed s = nat (min (courts s)
      (int (length (activePlayers s) div playersPerMatch (playingType s))))"

text \<open>What a reader of a stored match sees: the objects its team arrays point to.\<close>

definition members :: "Match \<Rightarrow> ref list" where
  "members m = team1 m @ team2 m"

definition matchContents :: "(ref \<Rightarrow> Player) \<Rightarrow> Match \<Rightarrow> Player list \<times> Player list" where
  "matchContents h m = (map h (team1 m), map h (team2 m))"

text \<open>
  The sort key that the comparator orders by: games played first, tier rank second.
\<close>

definition pairingKey :: "Player \<Rightarrow> int \<times> int" where
  "pairingKey a = (gamesPlayed a, skillOrder (skill a))"

text \<open>
  Two readings of a player object that agree in everything but the games-played
  counter, which has not gone down from the first to the second.
\<close>

definition sameButGames :: "Player \<Rightarrow> Player \<Rightarrow> bool" where
  "sameButGames a b \<longleftrightarrow>
     id_player a = id_player b \<and> name a = name b \<and> skill a = skill b \<and>
     isOnLeave a = isOnLeave b \<and> gamesPlayed a \<le> gamesPlayed b"

definition storedMatches :: "App \<Rightarrow> Match set" where
  "storedMatches s = set (currentMatches s) \<union> (\<Union>e \<in> set (history s). set (matches e))"

text \<open>
  Well-formed states: the roster holds each object once, and every reference of the
  roster and of a stored match is allocated. Every handler keeps this.
\<close>

definition wellFormed :: "App \<Rightarrow> bool" where
  "wellFormed s \<longleftrightarrow>
     distinct (players s) \<and>
     (\<forall>p \<in> set (players s). p < fresh s) \<and>
     (\<forall>m \<in> set (currentMatches s). \<forall>p \<in> set (members m). p < fresh s) \<and>
     (\<forall>e \<in> set (history s). \<forall>m \<in> set (matches e). \<forall>p \<in> set (members m). p < fresh s)"

text \<open>
  What \<open>loadState\<close> makes of one stored history entry \<open>h\<close>: the time stamp that the
  entry holds, the entry with that time stamp turned into a date, and the entries on
  which the callback throws (\<open>null\<close>, or a time stamp that cannot be converted).
\<close>

definition storedTimestamp :: "jsval \<Rightarrow> jsval" where
  "storedTimestamp h = (case h of JObject kv \<Rightarrow> getField kv (js ''timestamp'') | _ \<Rightarrow> JUndefined)"

definition revived :: "jsval \<Rightarrow> jsval" where
  "revived h = JObject (setField (js ''timestamp'') (JDate (storedTimestamp h)) (ownProps h))"

definition entryThrows :: "jsval \<Rightarrow> bool" where
  "entryThrows h \<longleftrightarrow> h = JNull \<or> h = JUndefined \<or> toPrimitiveThrows (storedTimestamp h)"

text \<open>Reading a decimal numeral back, the inverse of \<open>toString\<close>.\<close>

definition fromDigits :: "jsstring \<Rightarrow> nat" where
  "fromDigits ds = foldl (\<lambda>a d. a * 10 + (d - 48)) 0 ds"

subsection \<open>Example sessions\<close>

text \<open>
  Four players A, B, C and D with 0, 0, 1 and 0 games and the tiers beginner,
  intermediate, beginner and pro, one court, doubles.
\<close>

definition scenarioHeap :: "ref \<Rightarrow> Player" where
  "scenarioHeap = (\<lambda>_. blankPlayer)
     (0 := \<lparr> id_player = js ''1'', name = js ''A'', skill = Beginner, gamesPlayed = 0,
             isOnLeave = False \<rparr>,
      1 := \<lparr> id_player = js ''2'', name = js ''B'', skill = Intermediate, gamesPlayed = 0,
             isOnLeave = False \<rparr>,
      2 := \<lparr> id_player = js ''3'', name = js ''C'', skill = Beginner, gamesPlayed = 1,
             isOnLeave = False \<rparr>,
      3 := \<lparr> id_player = js ''4'', name = js ''D'', skill = ProPlayer, gamesPlayed = 0,
             isOnLeave = False \<rparr>)"

definition scenario :: App where
  "scenario = initialApp \<lparr> heap := scenarioHeap, fresh := 4, players := [0, 1, 2, 3],
                           advancedMode := True \<rparr>"

text \<open>The same session with D removed from the roster: three active players.\<close>

definition scenario3 :: App where
  "scenario3 = scenario \<lparr> players := [0, 1, 2] \<rparr>"

text \<open>
  A club night: doubles on three courts and twelve players A to L. D is on leave. The
  games played are 1, 0, 0, 0, 0, 2, 0, 1, 1, 0, 2, 3 and the tiers are beginner, pro,
  beginner, intermediate, intermediate, beginner, beginner, pro, intermediate, pro,
  intermediate, beginner.
\<close>

definition clubHeap :: "ref \<Rightarrow> Player" where
  "clubHeap = (\<lambda>_. blankPlayer)
     (0 := \<lparr> id_player = js ''100'', name = js ''A'', skill = Beginner, gamesPlayed = 1,
             isOnLeave = False \<rparr>,
      1 := \<lparr> id_player = js ''101'', name = js ''B'', skill = ProPlayer, gamesPlayed = 0,
             isOnLeave = False \<rparr>,
      2 := \<lparr> id_player = js ''102'', name = js ''C'', skill = Beginner, gamesPlayed = 0,
             isOnLeave = False \<rparr>,
      3 := \<lparr> id_player = js ''103'', name = js ''D'', skill = Intermediate, gamesPlayed = 0,
             isOnLeave = True \<rparr>,
      4 := \<lparr> id_player = js ''104'', name = js ''E'', skill = Intermediate, gamesPlayed = 0,
             isOnLeave = False \<rparr>,
      5 := \<lparr> id_player = js ''105'', name = js ''F'', skill = Beginner, gamesPlayed = 2,
             isOnLeave = False \<rparr>,
      6 := \<lparr> id_player = js ''106'', name = js ''G'', skill = Beginner, gamesPlayed = 0,
             isOnLeave = False \<rparr>,
      7 := \<lparr> id_player = js ''107'', name = js ''H'', skill = ProPlayer, gamesPlayed = 1,
             isOnLeave = False \<rparr>,
      8 := \<lparr> id_player = js ''108'', name = js ''I'', skill = Intermediate, gamesPlayed = 1,
             isOnLeave = False \<rparr>,
      9 := \<lparr> id_player = js ''109'', name = js ''J'', skill = ProPlayer, gamesPlayed = 0,
             isOnLeave = False \<rparr>,
      10 := \<lparr> id_player = js ''110'', name = js ''K'', skill = Intermediate, gamesPlayed = 2,
              isOnLeave = False \<rparr>,
      11 := \<lparr> id_player = js ''111'', name = js ''L'', skill = Beginner, gamesPlayed = 3,
              isOnLeave = False \<rparr>)"

definition club :: App where
  "club = initialApp \<lparr> heap := clubHeap, fresh := 12,
                         players := [0, 1, 2, 3, 4, 5, 6, 7, 8, 9, 10, 11],
                         courts := 3, advancedMode := True \<rparr>"

text \<open>
  A session played through the handlers: singles, players A and B added at times 1
  and 2, then two rounds generated.
\<close>

definition duel :: App where
  "duel = addPlayer 2 (setPlayerName (js ''B'')
            (addPlayer 1 (setPlayerName (js ''A'') (setPlayingType Single initialApp))))"

definition duelRound1 :: App where
  "duelRound1 = snd (generateMatches (\<lambda>_. 10) 10 duel)"

definition duelRound2 :: App where
  "duelRound2 = snd (generateMatches (\<lambda>_. 20) 20 duelRound1)"

text \<open>
  The session \<open>duel\<close> again, but with advanced mode switched on while A is added as a
  pro and B as a beginner, and switched off afterwards.
\<close>

definition tiersOff :: App where
  "tiersOff = toggleAdvancedMode
     (addPlayer 2 (setPlayerSkill Beginner (setPlayerName (js ''B'')
       (addPlayer 1 (setPlayerSkill ProPlayer (setPlayerName (js ''A'')
         (toggleAdvancedMode (setPlayingType Single initialApp))))))))"

text \<open>Two players added in the same millisecond.\<close>

definition sameTime :: App where
  "sameTime = addPlayer 5 (setPlayerName (js ''B'') (addPlayer 5 (setPlayerName (js ''A'') initialApp)))"

text \<open>
  Stored texts and a parser that reads each of them as the value it denotes and
  rejects every other text. The texts are \<open>{"players":5}\<close>, \<open>{"courts":3}\<close>, \<open>null\<close>,
  \<open>7\<close>, \<open>{"history":5}\<close>,
  \<open>{"courts":3,"history":[{"round":1,"matches":[],"timestamp":"t"}]}\<close> and
  \<open>{"courts":3,"history":[{"timestamp":{"toString":1}}]}\<close>.
\<close>

definition quoted :: "string \<Rightarrow> jsstring" where
  "quoted cs = [34] @ js cs @ [34]"

definition storedPlayers5 :: jsstring where
  "storedPlayers5 = [123, 34] @ js ''players'' @ [34, 58, 53, 125]"

definition storedCourts3 :: jsstring where
  "storedCourts3 = [123, 34] @ js ''courts'' @ [34, 58, 51, 125]"

definition storedHistory5 :: jsstring where
  "storedHistory5 = js ''{'' @ quoted ''history'' @ js '':5}''"

definition storedRound :: jsstring where
  "storedRound = js ''{'' @ quoted ''courts'' @ js '':3,'' @ quoted ''history'' @ js '':[{''
     @ quoted ''round'' @ js '':1,'' @ quoted ''matches'' @ js '':[],'' @ quoted ''timestamp''
     @ js '':'' @ quoted ''t'' @ js ''}]}''"

definition storedBadStamp :: jsstring where
  "storedBadStamp = js ''{'' @ quoted ''courts'' @ js '':3,'' @ quoted ''history'' @ js '':[{''
     @ quoted ''timestamp'' @ js '':{'' @ quoted ''toString'' @ js '':1}}]}''"

definition parsedRound :: "(jsstring \<times> jsval) list" where
  "parsedRound =
     [(js ''courts'', JNumber (Finite 3)),
      (js ''history'',
       JArray [JObject [(js ''round'', JNumber (Finite 1)), (js ''matches'', JArray []),
                        (js ''timestamp'', JString (js ''t''))]])]"

definition parsedBadStamp :: "(jsstring \<times> jsval) list" where
  "parsedBadStamp =
     [(js ''courts'', JNumber (Finite 3)),
      (js ''history'',
       JArray [JObject [(js ''timestamp'', JObject [(js ''toString'', JNumber (Finite 1))])]])]"

definition parseStored :: "jsstring \<Rightarrow> exn + jsval" where
  "parseStored t =
     (if t = storedPlayers5 then Inr (JObject [(js ''players'', JNumber (Finite 5))])
      else if t = storedCourts3 then Inr (JObject [(js ''courts'', JNumber (Finite 3))])
      else if t = js ''null'' then Inr JNull
      else if t = js ''7'' then Inr (JNumber (Finite 7))
      else if t = storedHistory5 then Inr (JObject [(js ''history'', JNumber (Finite 5))])
      else if t = storedRound then Inr (JObject parsedRound)
      else if t = storedBadStamp then Inr (JObject parsedBadStamp)
      else Inl SyntaxError)"

section \<open>Properties\<close>

subsection \<open>Slices, sorting and the court loop\<close>

lemma slice_nat: "slice xs (int a) (int b) = take (b - a) (drop a xs)"
proof -
  have d: "nat (int x - int y) = x - y" for x y :: nat by simp
  show ?thesis
  proof (cases "a \<le> length xs")
    case True
    then show ?thesis
      by (cases "b \<le> length xs") (simp_all add: slice_def Let_def min_def d)
  next
    case False
    then show ?thesis by (simp add: slice_def Let_def min_def d)
  qed
qed

lemma slice_from_0: "slice xs 0 t = take (if t < 0 then nat (int (length xs) + t) else nat t) xs"
  by (auto simp: slice_def Let_def min_def max_def)

lemma playersPerMatch_pos: "0 < playersPerMatch pt"
  by (simp add: playersPerMatch_def)

lemma bumpGames_append: "bumpGames (xs @ ys) h = bumpGames ys (bumpGames xs h)"
  by (simp add: bumpGames_def)

lemma bumpGames_Nil: "bumpGames [] h = h"
  by (simp add: bumpGames_def)

lemma full_group_iff:
  assumes "0 < K"
  shows "length (take K (drop (i * K) av)) = K \<longleftrightarrow> i < length av div K"
proof -
  have "length (take K (drop (i * K) av)) = K \<longleftrightarrow> (i + 1) * K \<le> length av"
    using assms by (auto simp: min_def)
  also have "\<dots> \<longleftrightarrow> i + 1 \<le> length av div K"
    using assms by (simp add: less_eq_div_iff_mult_less_eq)
  finally show ?thesis by (simp add: Suc_le_eq)
qed

lemma matchLoop_char:
  "matchLoop clock pt rn av c i (h, ms) =
     (bumpGames (take ((max i (min (nat c) (length av div playersPerMatch pt)) - i) * playersPerMatch pt)
                   (drop (i * playersPerMatch pt) av)) h,
      ms @ map (\<lambda>j. mkMatch pt rn (clock j) j (take (playersPerMatch pt) (drop (j * playersPerMatch pt) av)))
             [i ..< max i (min (nat c) (length av div playersPerMatch pt))])"
proof (induction "nat c - i" arbitrary: i h ms)
  case 0
  then have "\<not> int i < c" by simp
  moreover from 0 have "max i (min (nat c) (length av div playersPerMatch pt)) = i" by simp
  ultimately show ?case
    by (simp add: matchLoop.simps[of _ _ _ _ c i] bumpGames_Nil)
next
  case (Suc d)
  define K where "K = playersPerMatch pt"
  have Kpos: "0 < K" by (simp add: K_def playersPerMatch_pos)
  define n where "n = min (nat c) (length av div K)"
  define mp where "mp = take K (drop (i * K) av)"
  from Suc.hyps(2) have lt: "int i < c" and d: "d = nat c - Suc i" by simp_all
  have sl: "slice av (int i * int K) ((int i + 1) * int K) = mp"
    using slice_nat[of av "i * K" "(i + 1) * K"] by (simp add: mp_def algebra_simps)
  note IH = Suc.hyps(1)[OF d, folded K_def, folded n_def]
  show ?case
  proof (cases "i < length av div K")
    case True
    then have full: "length mp = K" using full_group_iff[OF Kpos, of i av] by (simp add: mp_def)
    from True lt have e: "max i n = max (Suc i) n" "i < max (Suc i) n" by (simp_all add: n_def)
    have steps: "(max (Suc i) n - i) * K = K + (max (Suc i) n - Suc i) * K"
      using e(2) by (metis Suc_diff_Suc mult_Suc)
    have tk: "take ((max (Suc i) n - i) * K) (drop (i * K) av)
              = mp @ take ((max (Suc i) n - Suc i) * K) (drop (Suc i * K) av)"
      unfolding steps mp_def by (simp add: take_add add.commute)
    have "matchLoop clock pt rn av c i (h, ms)
          = matchLoop clock pt rn av c (Suc i) (bumpGames mp h, ms @ [mkMatch pt rn (clock i) i mp])"
      using lt full sl by (simp add: matchLoop.simps[of _ _ _ _ c i] K_def[symmetric])
    also note IH
    finally show ?thesis
      unfolding K_def[symmetric] n_def[symmetric] e(1) tk
      using e(2) by (simp add: bumpGames_append upt_conv_Cons mp_def)
  next
    case False
    then have notfull: "length mp \<noteq> K" using full_group_iff[OF Kpos, of i av] by (simp add: mp_def)
    from False have e: "max i n = i" "max (Suc i) n = Suc i" by (simp_all add: n_def)
    have "matchLoop clock pt rn av c i (h, ms) = matchLoop clock pt rn av c (Suc i) (h, ms)"
      using lt notfull sl by (simp add: matchLoop.simps[of _ _ _ _ c i] K_def[symmetric])
    also note IH
    finally show ?thesis
      unfolding K_def[symmetric] n_def[symmetric] e by (simp add: bumpGames_Nil)
  qed
qed

lemma mset_insertBy: "mset (insertBy cmp x xs) = add_mset x (mset xs)"
  by (induction xs) auto

lemma mset_sortBy: "mset (sortBy cmp xs) = mset xs"
  by (induction xs) (auto simp: mset_insertBy)

lemma set_sortBy: "set (sortBy cmp xs) = set xs"
  using mset_sortBy[of cmp xs] by (metis set_mset_mset)

lemma length_sortBy: "length (sortBy cmp xs) = length xs"
  using mset_sortBy[of cmp xs] by (metis size_mset)

lemma distinct_sortBy: "distinct (sortBy cmp xs) = distinct xs"
  using mset_sortBy[of cmp xs] by (metis mset_eq_imp_distinct_iff)

lemma length_sortedPlayers: "length (sortedPlayers s) = length (activePlayers s)"
  by (simp add: sortedPlayers_def length_sortBy)

lemma min_mult_div:
  fixes a K N :: nat
  assumes "0 < K"
  shows "min (a * K) N div K = min a (N div K)"
proof (cases "a * K \<le> N")
  case True
  then have "a \<le> N div K" using assms by (simp add: less_eq_div_iff_mult_less_eq)
  with True assms show ?thesis by (simp add: min_def)
next
  case False
  then have "\<not> a \<le> N div K" using assms by (simp add: less_eq_div_iff_mult_less_eq)
  with False show ?thesis by (simp add: min_def)
qed

lemma generateMatches_valid:
  assumes ok: "\<not> int (length (activePlayers s)) < (if playingType s = Single then 2 else 4)"
  shows "generateMatches clock stamp s =
     (None,
      s \<lparr> heap := bumpGames (take (courtsUsed s * playersPerMatch (playingType s)) (sortedPlayers s)) (heap s),
          currentMatches :=
            map (\<lambda>j. mkMatch (playingType s) (roundNumber s) (clock j) j
                       (take (playersPerMatch (playingType s))
                          (drop (j * playersPerMatch (playingType s)) (sortedPlayers s))))
                [0 ..< courtsUsed s],
          history := \<lparr> round_entry = roundNumber s,
                       matches = map (\<lambda>j. mkMatch (playingType s) (roundNumber s) (clock j) j
                                  (take (playersPerMatch (playingType s))
                                    (drop (j * playersPerMatch (playingType s)) (sortedPlayers s))))
                                  [0 ..< courtsUsed s],
                       timestamp = stamp \<rparr> # history s,
          roundNumber := roundNumber s + 1 \<rparr>)"
proof -
  define K where "K = playersPerMatch (playingType s)"
  define srt where "srt = sortedPlayers s"
  define N where "N = length (activePlayers s)"
  define n where "n = courtsUsed s"
  have Kpos: "0 < K" by (simp add: K_def playersPerMatch_pos)
  have lenS: "length srt = N" by (simp add: srt_def N_def length_sortedPlayers)
  have n_eq: "n = nat (min (courts s) (int (N div K)))"
    by (simp add: n_def courtsUsed_def N_def K_def)
  define av where "av = slice srt 0 (courts s * int K)"
  have loop: "matchLoop clock (playingType s) (roundNumber s) av (courts s) 0 (heap s, [])
      = (bumpGames (take (n * K) srt) (heap s),
         map (\<lambda>j. mkMatch (playingType s) (roundNumber s) (clock j) j (take K (drop (j * K) srt))) [0 ..< n])"
  proof (cases "courts s \<le> 0")
    case True
    then have "n = 0" by (simp add: n_eq)
    with True show ?thesis
      by (simp add: matchLoop_char bumpGames_Nil)
  next
    case False
    then have cpos: "0 < courts s" by simp
    then have "\<not> courts s * int K < 0" using Kpos by (simp add: mult_less_0_iff)
    then have av: "av = take (nat (courts s) * K) srt"
      using cpos by (simp add: av_def slice_from_0 nat_mult_distrib)
    have lenav: "length av div K = min (nat (courts s)) (N div K)"
      using min_mult_div[OF Kpos, of "nat (courts s)" N] by (simp add: av lenS min.commute)
    have nn: "n = min (nat (courts s)) (N div K)"
      using cpos by (simp add: n_eq min_def nat_le_iff le_nat_iff)
    have e: "max 0 (min (nat (courts s)) (length av div K)) = n"
      by (simp add: lenav nn)
    have nle: "n \<le> nat (courts s)" by (simp add: nn)
    have t1: "take (n * K) av = take (n * K) srt"
      using nle by (simp add: av min_def)
    have t2: "take K (drop (j * K) av) = take K (drop (j * K) srt)" if "j < n" for j
    proof -
      from that nle have "Suc j \<le> nat (courts s)" by simp
      then have "Suc j * K \<le> nat (courts s) * K" by (rule mult_le_mono1)
      then have "K \<le> nat (courts s) * K - j * K" by simp
      then show ?thesis by (simp add: av drop_take min_def)
    qed
    show ?thesis
      unfolding matchLoop_char K_def[symmetric] e
      using t1 t2 by simp
  qed
  show ?thesis
    using ok loop
    unfolding generateMatches_def Let_def K_def[symmetric] srt_def[symmetric] av_def[symmetric] n_def[symmetric]
    by simp
qed

lemma members_mkMatch:
  assumes "length mp = playersPerMatch pt"
  shows "members (mkMatch pt rn t i mp) = mp"
proof (cases "pt = Single")
  case True
  with assms have "length mp = Suc (Suc 0)" by (simp add: playersPerMatch_def)
  then obtain a b where "mp = [a, b]" by (auto simp: length_Suc_conv)
  with True show ?thesis by (simp add: members_def mkMatch_def)
next
  case False
  with assms have "length mp = Suc (Suc (Suc (Suc 0)))" by (simp add: playersPerMatch_def)
  then obtain a b c d where "mp = [a, b, c, d]" by (auto simp: length_Suc_conv)
  with False show ?thesis by (simp add: members_def mkMatch_def)
qed

lemma concat_groups:
  "concat (map (\<lambda>j. take K (drop (j * K) xs)) [0 ..< n]) = take (n * K) xs"
proof (induction n)
  case 0
  show ?case by simp
next
  case (Suc n)
  have "Suc n * K = n * K + K" by simp
  then have "take (Suc n * K) xs = take (n * K) xs @ take K (drop (n * K) xs)"
    by (simp only: take_add)
  with Suc show ?case by simp
qed

lemma bumpGames_distinct:
  "distinct ps \<Longrightarrow>
   bumpGames ps h p = (if p \<in> set ps then (h p)\<lparr> gamesPlayed := gamesPlayed (h p) + 1 \<rparr> else h p)"
proof (induction ps arbitrary: h)
  case Nil
  show ?case by (simp add: bumpGames_def)
next
  case (Cons q ps)
  have step: "bumpGames (q # ps) h = bumpGames ps (h(q := (h q)\<lparr> gamesPlayed := gamesPlayed (h q) + 1 \<rparr>))"
    by (simp add: bumpGames_def)
  from Cons.prems have "q \<notin> set ps" "distinct ps" by simp_all
  then show ?case
    unfolding step by (auto simp: Cons.IH)
qed

lemma distinct_sortedPlayers: "distinct (players s) \<Longrightarrow> distinct (sortedPlayers s)"
  by (simp add: sortedPlayers_def distinct_sortBy activePlayers_def)

lemma courtsUsed_bound:
  "courtsUsed s * playersPerMatch (playingType s) \<le> length (sortedPlayers s)"
proof -
  have "courtsUsed s \<le> length (activePlayers s) div playersPerMatch (playingType s)"
    by (simp add: courtsUsed_def)
  then have "courtsUsed s * playersPerMatch (playingType s)
             \<le> length (activePlayers s) div playersPerMatch (playingType s) * playersPerMatch (playingType s)"
    by (rule mult_le_mono1)
  also have "\<dots> \<le> length (activePlayers s)" by simp
  finally show ?thesis by (simp add: length_sortedPlayers)
qed

lemma group_length:
  assumes "j < courtsUsed s"
  shows "length (take (playersPerMatch (playingType s))
                   (drop (j * playersPerMatch (playingType s)) (sortedPlayers s)))
         = playersPerMatch (playingType s)"
proof -
  from assms have "Suc j * playersPerMatch (playingType s) \<le> courtsUsed s * playersPerMatch (playingType s)"
    by (intro mult_le_mono1) simp
  with courtsUsed_bound[of s] have "Suc j * playersPerMatch (playingType s) \<le> length (sortedPlayers s)"
    by linarith
  then show ?thesis by simp
qed

lemma valid_iff:
  "(\<not> int (length (activePlayers s)) < (if playingType s = Single then 2 else 4))
   \<longleftrightarrow> playersPerMatch (playingType s) \<le> length (activePlayers s)"
  by (auto simp: playersPerMatch_def)

lemma round_matches:
  assumes "playersPerMatch (playingType s) \<le> length (activePlayers s)"
  shows "currentMatches (snd (generateMatches clock stamp s)) =
           map (\<lambda>j. mkMatch (playingType s) (roundNumber s) (clock j) j
                       (take (playersPerMatch (playingType s))
                          (drop (j * playersPerMatch (playingType s)) (sortedPlayers s))))
                [0 ..< courtsUsed s]"
    and "heap (snd (generateMatches clock stamp s)) =
           bumpGames (take (courtsUsed s * playersPerMatch (playingType s)) (sortedPlayers s)) (heap s)"
  using assms by (simp_all add: generateMatches_valid valid_iff)

lemma round_members:
  assumes "playersPerMatch (playingType s) \<le> length (activePlayers s)"
  shows "map members (currentMatches (snd (generateMatches clock stamp s))) =
           map (\<lambda>j. take (playersPerMatch (playingType s))
                          (drop (j * playersPerMatch (playingType s)) (sortedPlayers s)))
                [0 ..< courtsUsed s]"
  unfolding round_matches(1)[OF assms] map_map
proof (rule map_cong[OF refl])
  fix j assume "j \<in> set [0 ..< courtsUsed s]"
  then have "j < courtsUsed s" by simp
  then show "(members \<circ> (\<lambda>j. mkMatch (playingType s) (roundNumber s) (clock j) j
                       (take (playersPerMatch (playingType s))
                          (drop (j * playersPerMatch (playingType s)) (sortedPlayers s))))) j
     = take (playersPerMatch (playingType s))
                          (drop (j * playersPerMatch (playingType s)) (sortedPlayers s))"
    unfolding comp_def by (intro members_mkMatch group_length)
qed

lemma round_placed:
  assumes "playersPerMatch (playingType s) \<le> length (activePlayers s)"
  shows "concat (map members (currentMatches (snd (generateMatches clock stamp s)))) =
           take (courtsUsed s * playersPerMatch (playingType s)) (sortedPlayers s)"
  unfolding round_members[OF assms] by (rule concat_groups)

subsection \<open>Rounds: matches, counters, history\<close>

lemmas scenario_eval = scenario_def scenario3_def scenarioHeap_def initialApp_def blankPlayer_def
  activePlayers_def playersPerMatch_def

lemma scenario_round:
  "playersPerMatch (playingType scenario) \<le> length (activePlayers scenario)"
  "sortedPlayers scenario = [0, 1, 3, 2]"
  "courtsUsed scenario = 1"
  "playingType scenario = Double" "roundNumber scenario = 1"
  by (simp_all add: sortedPlayers_def courtsUsed_def scenario_eval comparePlayers_def skillOrder_def)

lemma scenario_store:
  "heap (snd (generateMatches (\<lambda>_. 0) 0 scenario)) p =
     (if p \<in> set [0, 1, 3, 2] then (heap scenario p)\<lparr> gamesPlayed := gamesPlayed (heap scenario p) + 1 \<rparr>
      else heap scenario p)"
  unfolding round_matches(2)[OF scenario_round(1)]
  by (subst bumpGames_distinct) (simp_all add: scenario_round playersPerMatch_def)

lemmas club_eval = club_def clubHeap_def initialApp_def blankPlayer_def

lemma club_fields:
  "players club = [0, 1, 2, 3, 4, 5, 6, 7, 8, 9, 10, 11]"
  "playingType club = Double" "courts club = 3" "roundNumber club = 1"
  by (simp_all add: club_eval)

lemma club_active: "activePlayers club = [0, 1, 2, 4, 5, 6, 7, 8, 9, 10, 11]"
  by (simp add: activePlayers_def club_eval)

lemma club_onLeave:
  "filter (\<lambda>p. \<not> isOnLeave (heap club p)) (players club) = [0, 1, 2, 4, 5, 6, 7, 8, 9, 10, 11]"
  using club_active by (simp add: activePlayers_def)

lemma club_sorted: "sortedPlayers club = [2, 6, 4, 1, 9, 0, 8, 7, 5, 10, 11]"
  unfolding sortedPlayers_def club_active
  by (simp add: club_eval comparePlayers_def skillOrder_def)

lemma club_round:
  "playersPerMatch (playingType club) \<le> length (activePlayers club)"
  "courtsUsed club = 2"
  by (simp_all add: courtsUsed_def club_active club_fields playersPerMatch_def)

lemma club_matches:
  "currentMatches (snd (generateMatches (\<lambda>_. 0) 0 club))
   = [mkMatch Double 1 0 0 [2, 6, 4, 1], mkMatch Double 1 0 1 [9, 0, 8, 7]]"
  by (simp add: round_matches(1)[OF club_round(1)] club_round(2) club_sorted club_fields
      playersPerMatch_def numeral_2_eq_2)

lemma club_teams:
  "map team1 (currentMatches (snd (generateMatches (\<lambda>_. 0) 0 club))) = [[2, 6], [9, 0]]"
  "map team2 (currentMatches (snd (generateMatches (\<lambda>_. 0) 0 club))) = [[4, 1], [8, 7]]"
  "map court (currentMatches (snd (generateMatches (\<lambda>_. 0) 0 club))) = [1, 2]"
  "map members (currentMatches (snd (generateMatches (\<lambda>_. 0) 0 club))) = [[2, 6, 4, 1], [9, 0, 8, 7]]"
  by (simp_all add: club_matches mkMatch_def members_def)

lemma club_store:
  "heap (snd (generateMatches (\<lambda>_. 0) 0 club)) p =
     (if p \<in> set [2, 6, 4, 1, 9, 0, 8, 7] then (heap club p)\<lparr> gamesPlayed := gamesPlayed (heap club p) + 1 \<rparr>
      else heap club p)"
  unfolding round_matches(2)[OF club_round(1)]
  by (subst bumpGames_distinct) (simp_all add: club_round club_sorted club_fields playersPerMatch_def)

lemma club_games:
  "map (gamesPlayed \<circ> heap club) [0, 1, 2, 3, 4, 5, 6, 7, 8, 9, 10, 11]
     = [1, 0, 0, 0, 0, 2, 0, 1, 1, 0, 2, 3]"
  "map (gamesPlayed \<circ> heap (snd (generateMatches (\<lambda>_. 0) 0 club))) [0, 1, 2, 3, 4, 5, 6, 7, 8, 9, 10, 11]
     = [2, 1, 1, 0, 1, 2, 1, 2, 2, 1, 2, 3]"
  "map (isOnLeave \<circ> heap club) [0, 1, 2, 3, 4, 5, 6, 7, 8, 9, 10, 11]
     = [False, False, False, True, False, False, False, False, False, False, False, False]"
  by (simp_all add: club_store) (simp_all add: club_eval)

lemma round_store:
  assumes "distinct (players s)"
    and "playersPerMatch (playingType s) \<le> length (activePlayers s)"
  shows "heap (snd (generateMatches clock stamp s)) p =
           (if p \<in> set (concat (map members (currentMatches (snd (generateMatches clock stamp s)))))
            then (heap s p)\<lparr> gamesPlayed := gamesPlayed (heap s p) + 1 \<rparr>
            else heap s p)"
  unfolding round_placed[OF assms(2)] round_matches(2)[OF assms(2)]
  using assms(1) by (intro bumpGames_distinct) (simp add: distinct_sortedPlayers)

lemma round_members_active:
  assumes "playersPerMatch (playingType s) \<le> length (activePlayers s)"
    and "m \<in> set (currentMatches (snd (generateMatches clock stamp s)))"
    and "p \<in> set (members m)"
  shows "p \<in> set (players s) \<and> \<not> isOnLeave (heap s p)"
proof -
  from assms(2,3) have "p \<in> set (concat (map members (currentMatches (snd (generateMatches clock stamp s)))))"
    by auto
  then have "p \<in> set (sortedPlayers s)"
    unfolding round_placed[OF assms(1)] by (rule in_set_takeD)
  then show ?thesis
    by (simp add: sortedPlayers_def set_sortBy activePlayers_def)
qed

lemma round_member_lists:
  assumes "distinct (players s)"
    and "playersPerMatch (playingType s) \<le> length (activePlayers s)"
    and "m \<in> set (currentMatches (snd (generateMatches clock stamp s)))"
  shows "length (members m) = playersPerMatch (playingType s) \<and> distinct (members m)"
proof -
  let ?K = "playersPerMatch (playingType s)"
  from assms(3) have "members m \<in> set (map members (currentMatches (snd (generateMatches clock stamp s))))"
    by simp
  then obtain j where j: "j < courtsUsed s" "members m = take ?K (drop (j * ?K) (sortedPlayers s))"
    unfolding round_members[OF assms(2)] by auto
  have "distinct (take ?K (drop (j * ?K) (sortedPlayers s)))"
    using assms(1) by (simp add: distinct_sortedPlayers)
  with j group_length[OF j(1)] show ?thesis by simp
qed

lemma valid_explicit:
  "(if playingType s = Single then 2 else 4) \<le> length (filter (\<lambda>p. \<not> isOnLeave (heap s p)) (players s))
   \<longleftrightarrow> playersPerMatch (playingType s) \<le> length (activePlayers s)"
  by (simp add: playersPerMatch_def activePlayers_def)

text \<open>
  C1. Let \<open>N\<close> be the number of roster players that are not on leave, \<open>K\<close> the players
  per match (2 for singles, 4 for doubles) and \<open>C\<close> the court count. A call of
  \<open>generateMatches\<close> with \<open>N \<ge> K\<close> produces \<open>min C (N div K)\<close> matches (none when the
  court count is below 0); every match holds \<open>K\<close> distinct players, all of them roster
  players that are not on leave; and the games-played counter of a player goes up by
  exactly one if the player is in one of the matches and is unchanged otherwise, as is
  every other field of every player.
\<close>

theorem generateMatches_count_members_counters:
  assumes "distinct (players s)"
    and "(if playingType s = Single then 2 else 4)
           \<le> length (filter (\<lambda>p. \<not> isOnLeave (heap s p)) (players s))"
  shows "int (length (currentMatches (snd (generateMatches clock stamp s))))
           = max 0 (min (courts s)
                        (int (length (filter (\<lambda>p. \<not> isOnLeave (heap s p)) (players s))
                              div (if playingType s = Single then 2 else 4))))
       \<and> (0 \<le> courts s \<longrightarrow>
            int (length (currentMatches (snd (generateMatches clock stamp s))))
              = min (courts s)
                    (int (length (filter (\<lambda>p. \<not> isOnLeave (heap s p)) (players s))
                          div (if playingType s = Single then 2 else 4))))
       \<and> (\<forall>m \<in> set (currentMatches (snd (generateMatches clock stamp s))).
             length (team1 m @ team2 m) = (if playingType s = Single then 2 else 4)
           \<and> distinct (team1 m @ team2 m)
           \<and> (\<forall>p \<in> set (team1 m @ team2 m). p \<in> set (players s) \<and> \<not> isOnLeave (heap s p)))
       \<and> (\<forall>p. heap (snd (generateMatches clock stamp s)) p =
             (if \<exists>m \<in> set (currentMatches (snd (generateMatches clock stamp s))).
                   p \<in> set (team1 m @ team2 m)
              then (heap s p)\<lparr> gamesPlayed := gamesPlayed (heap s p) + 1 \<rparr>
              else heap s p))"
proof -
  let ?s' = "snd (generateMatches clock stamp s)"
  let ?N = "length (filter (\<lambda>p. \<not> isOnLeave (heap s p)) (players s))"
  let ?K = "if playingType s = Single then 2 else 4 :: nat"
  have K: "playersPerMatch (playingType s) = ?K" by (simp add: playersPerMatch_def)
  have N: "length (activePlayers s) = ?N" by (simp add: activePlayers_def)
  from assms(2) have ok: "playersPerMatch (playingType s) \<le> length (activePlayers s)"
    unfolding K N .
  have "length (currentMatches ?s') = courtsUsed s"
    by (simp add: round_matches(1)[OF ok])
  then have count: "int (length (currentMatches ?s')) = max 0 (min (courts s) (int (?N div ?K)))"
    unfolding courtsUsed_def K N by simp
  then have count': "0 \<le> courts s \<longrightarrow> int (length (currentMatches ?s')) = min (courts s) (int (?N div ?K))"
    by simp
  have mem: "length (team1 m @ team2 m) = ?K \<and> distinct (team1 m @ team2 m)
           \<and> (\<forall>p \<in> set (team1 m @ team2 m). p \<in> set (players s) \<and> \<not> isOnLeave (heap s p))"
    if "m \<in> set (currentMatches ?s')" for m
    using round_member_lists[OF assms(1) ok that] round_members_active[OF ok that]
    unfolding members_def K by blast
  have counters: "heap ?s' p = (if \<exists>m \<in> set (currentMatches ?s'). p \<in> set (team1 m @ team2 m)
              then (heap s p)\<lparr> gamesPlayed := gamesPlayed (heap s p) + 1 \<rparr> else heap s p)" for p
    using round_store[OF assms(1) ok, of clock stamp p] by (simp add: members_def)
  from count count' mem counters show ?thesis by blast
qed

theorem generateMatches_count_members_counters_witness:
  "distinct (players club)
   \<and> (if playingType club = Single then 2 else 4)
        \<le> length (filter (\<lambda>p. \<not> isOnLeave (heap club p)) (players club))
   \<and> length (players club) = 12
   \<and> length (filter (\<lambda>p. \<not> isOnLeave (heap club p)) (players club)) = 11
   \<and> courts club = 3
   \<and> length (currentMatches (snd (generateMatches (\<lambda>_. 0) 0 club))) = 2
   \<and> map (\<lambda>m. team1 m @ team2 m) (currentMatches (snd (generateMatches (\<lambda>_. 0) 0 club)))
       = [[2, 6, 4, 1], [9, 0, 8, 7]]
   \<and> map (isOnLeave \<circ> heap club) [0, 1, 2, 3, 4, 5, 6, 7, 8, 9, 10, 11]
       = [False, False, False, True, False, False, False, False, False, False, False, False]
   \<and> map (gamesPlayed \<circ> heap club) [0, 1, 2, 3, 4, 5, 6, 7, 8, 9, 10, 11]
       = [1, 0, 0, 0, 0, 2, 0, 1, 1, 0, 2, 3]
   \<and> map (gamesPlayed \<circ> heap (snd (generateMatches (\<lambda>_. 0) 0 club))) [0, 1, 2, 3, 4, 5, 6, 7, 8, 9, 10, 11]
       = [2, 1, 1, 0, 1, 2, 1, 2, 2, 1, 2, 3]"
proof -
  have d: "distinct (players club)" by (simp add: club_fields)
  have N: "length (filter (\<lambda>p. \<not> isOnLeave (heap club p)) (players club)) = 11"
    by (simp only: club_onLeave) simp
  have v: "(if playingType club = Single then 2 else 4)
        \<le> length (filter (\<lambda>p. \<not> isOnLeave (heap club p)) (players club))"
    unfolding N by simp
  have c: "0 \<le> courts club" by (simp add: club_fields)
  from generateMatches_count_members_counters[OF d v, of "\<lambda>_. 0" 0] c
  have "int (length (currentMatches (snd (generateMatches (\<lambda>_. 0) 0 club))))
          = min (courts club) (int (length (filter (\<lambda>p. \<not> isOnLeave (heap club p)) (players club))
                          div (if playingType club = Single then 2 else 4)))"
    by blast
  then have len: "length (currentMatches (snd (generateMatches (\<lambda>_. 0) 0 club))) = 2"
    unfolding N by (simp add: club_fields(2,3))
  have ms: "map (\<lambda>m. team1 m @ team2 m) (currentMatches (snd (generateMatches (\<lambda>_. 0) 0 club)))
       = [[2, 6, 4, 1], [9, 0, 8, 7]]"
    using club_teams(4) unfolding members_def[abs_def] .
  have l: "length (players club) = 12" by (simp add: club_fields)
  have c3: "courts club = 3" by (simp add: club_fields)
  from d v l N c3 len ms club_games show ?thesis by blast
qed

text \<open>
  C3. When fewer players are active than one court needs (2 for singles, 4 for
  doubles), \<open>generateMatches\<close> hands a message to \<open>alert\<close> and returns the state as it
  was: store (every counter and on-leave flag), roster, history, current matches and
  round counter.
\<close>

theorem generateMatches_rejects:
  assumes "length (activePlayers s) < (if playingType s = Single then 2 else 4)"
  shows "fst (generateMatches clock stamp s) = Some (alertText (playingType s))
       \<and> snd (generateMatches clock stamp s) = s"
proof -
  from assms have "int (length (activePlayers s)) < (if playingType s = Single then 2 else 4)"
    by (simp split: if_splits)
  then show ?thesis by (simp add: generateMatches_def)
qed

theorem generateMatches_rejects_witness:
  "length (activePlayers scenario3) < (if playingType scenario3 = Single then 2 else 4)
   \<and> fst (generateMatches (\<lambda>_. 0) 0 scenario3) = Some (js ''Need at least 4 active players!'')
   \<and> snd (generateMatches (\<lambda>_. 0) 0 scenario3) = scenario3"
  using generateMatches_rejects[of scenario3 "\<lambda>_. 0" 0]
  by (simp add: scenario_eval alertText_def js_def toString.simps)

text \<open>
  C4. A call of \<open>generateMatches\<close> that passes the validation puts one new entry in
  front of the history, with the round counter's value before the call as its round
  number, and adds one to the round counter; a rejected call changes neither.
\<close>

theorem generateMatches_history_round:
  "(playersPerMatch (playingType s) \<le> length (activePlayers s) \<longrightarrow>
      history (snd (generateMatches clock stamp s))
        = \<lparr> round_entry = roundNumber s,
            matches = currentMatches (snd (generateMatches clock stamp s)),
            timestamp = stamp \<rparr> # history s
      \<and> roundNumber (snd (generateMatches clock stamp s)) = roundNumber s + 1)
   \<and> (length (activePlayers s) < playersPerMatch (playingType s) \<longrightarrow>
      history (snd (generateMatches clock stamp s)) = history s
      \<and> roundNumber (snd (generateMatches clock stamp s)) = roundNumber s)"
proof (intro conjI impI)
  assume ok: "playersPerMatch (playingType s) \<le> length (activePlayers s)"
  then have v: "\<not> int (length (activePlayers s)) < (if playingType s = Single then 2 else 4)"
    by (simp add: valid_iff)
  show "history (snd (generateMatches clock stamp s))
        = \<lparr> round_entry = roundNumber s,
            matches = currentMatches (snd (generateMatches clock stamp s)),
            timestamp = stamp \<rparr> # history s"
    by (simp add: generateMatches_valid[OF v])
  show "roundNumber (snd (generateMatches clock stamp s)) = roundNumber s + 1"
    by (simp add: generateMatches_valid[OF v])
next
  assume "length (activePlayers s) < playersPerMatch (playingType s)"
  then have r: "int (length (activePlayers s)) < (if playingType s = Single then 2 else 4)"
    by (simp add: playersPerMatch_def split: if_splits)
  show "history (snd (generateMatches clock stamp s)) = history s"
    using r by (simp add: generateMatches_def)
  show "roundNumber (snd (generateMatches clock stamp s)) = roundNumber s"
    using r by (simp add: generateMatches_def)
qed

theorem generateMatches_history_round_witness:
  "(playersPerMatch (playingType scenario) \<le> length (activePlayers scenario)
    \<and> length (history (snd (generateMatches (\<lambda>_. 0) 7 scenario))) = 1
    \<and> round_entry (hd (history (snd (generateMatches (\<lambda>_. 0) 7 scenario)))) = 1
    \<and> roundNumber (snd (generateMatches (\<lambda>_. 0) 7 scenario)) = 2)
   \<and> (length (activePlayers scenario3) < playersPerMatch (playingType scenario3)
    \<and> history (snd (generateMatches (\<lambda>_. 0) 7 scenario3)) = []
    \<and> roundNumber (snd (generateMatches (\<lambda>_. 0) 7 scenario3)) = 1)"
  using generateMatches_history_round[of scenario "\<lambda>_. 0" 7]
        generateMatches_history_round[of scenario3 "\<lambda>_. 0" 7]
  by (simp add: scenario_eval)

lemma distinct_concat_nth:
  "distinct (concat xss) \<Longrightarrow> i < j \<Longrightarrow> j < length xss \<Longrightarrow> set (xss ! i) \<inter> set (xss ! j) = {}"
proof (induction xss arbitrary: i j)
  case Nil
  then show ?case by simp
next
  case (Cons xs xss)
  from Cons.prems(2) obtain j' where j: "j = Suc j'" by (cases j) auto
  with Cons.prems(3) have j': "j' < length xss" by simp
  show ?case
  proof (cases i)
    case 0
    from j' have "xss ! j' \<in> set xss" by (rule nth_mem)
    then have "set (xss ! j') \<subseteq> set (concat xss)" by auto
    moreover from Cons.prems(1) have "set xs \<inter> set (concat xss) = {}" by simp
    ultimately show ?thesis using 0 j by auto
  next
    case (Suc i')
    with Cons.prems(2) j have "i' < j'" by simp
    moreover from Cons.prems(1) have "distinct (concat xss)" by simp
    ultimately show ?thesis using Cons.IH[of i' j'] j' Suc j by simp
  qed
qed

text \<open>
  C10. The matches produced by one call of \<open>generateMatches\<close> are pairwise disjoint: no
  player is in two of them, and listing the members of all matches of the round,
  court after court, no player occurs twice.
\<close>

theorem generateMatches_disjoint:
  assumes "distinct (players s)"
    and "playersPerMatch (playingType s) \<le> length (activePlayers s)"
  shows "distinct (concat (map members (currentMatches (snd (generateMatches clock stamp s)))))
       \<and> (\<forall>i j. i < j \<and> j < length (currentMatches (snd (generateMatches clock stamp s))) \<longrightarrow>
             set (team1 (currentMatches (snd (generateMatches clock stamp s)) ! i)
                  @ team2 (currentMatches (snd (generateMatches clock stamp s)) ! i))
             \<inter> set (team1 (currentMatches (snd (generateMatches clock stamp s)) ! j)
                    @ team2 (currentMatches (snd (generateMatches clock stamp s)) ! j)) = {})"
proof -
  let ?ms = "currentMatches (snd (generateMatches clock stamp s))"
  have d: "distinct (concat (map members ?ms))"
    unfolding round_placed[OF assms(2)] using assms(1) by (simp add: distinct_sortedPlayers)
  have "set (team1 (?ms ! i) @ team2 (?ms ! i)) \<inter> set (team1 (?ms ! j) @ team2 (?ms ! j)) = {}"
    if "i < j \<and> j < length ?ms" for i j
    using distinct_concat_nth[OF d, of i j] that by (simp add: members_def)
  with d show ?thesis by blast
qed

theorem generateMatches_disjoint_witness:
  "distinct (players club)
   \<and> playersPerMatch (playingType club) \<le> length (activePlayers club)
   \<and> length (currentMatches (snd (generateMatches (\<lambda>_. 0) 0 club))) = 2
   \<and> map members (currentMatches (snd (generateMatches (\<lambda>_. 0) 0 club))) = [[2, 6, 4, 1], [9, 0, 8, 7]]
   \<and> distinct (concat (map members (currentMatches (snd (generateMatches (\<lambda>_. 0) 0 club)))))
   \<and> set (team1 (currentMatches (snd (generateMatches (\<lambda>_. 0) 0 club)) ! 0)
           @ team2 (currentMatches (snd (generateMatches (\<lambda>_. 0) 0 club)) ! 0))
      \<inter> set (team1 (currentMatches (snd (generateMatches (\<lambda>_. 0) 0 club)) ! 1)
             @ team2 (currentMatches (snd (generateMatches (\<lambda>_. 0) 0 club)) ! 1)) = {}"
proof -
  have d: "distinct (players club)" by (simp add: club_fields)
  have len: "length (currentMatches (snd (generateMatches (\<lambda>_. 0) 0 club))) = 2"
    by (simp add: club_matches)
  note T = generateMatches_disjoint[OF d club_round(1), of "\<lambda>_. 0" 0]
  from T have c: "distinct (concat (map members (currentMatches (snd (generateMatches (\<lambda>_. 0) 0 club)))))"
    by blast
  from T len have p: "set (team1 (currentMatches (snd (generateMatches (\<lambda>_. 0) 0 club)) ! 0)
           @ team2 (currentMatches (snd (generateMatches (\<lambda>_. 0) 0 club)) ! 0))
      \<inter> set (team1 (currentMatches (snd (generateMatches (\<lambda>_. 0) 0 club)) ! 1)
             @ team2 (currentMatches (snd (generateMatches (\<lambda>_. 0) 0 club)) ! 1)) = {}"
    by (metis one_less_numeral_iff semiring_norm(76) zero_less_one)
  from d club_round(1) len club_teams(4) c p show ?thesis by blast
qed

subsection \<open>The pairing order\<close>

lemma comparePlayers_le:
  "comparePlayers a b \<le> 0 \<longleftrightarrow>
     gamesPlayed a < gamesPlayed b \<or>
     (gamesPlayed a = gamesPlayed b \<and> skillOrder (skill a) \<le> skillOrder (skill b))"
  by (auto simp: comparePlayers_def)

lemma comparePlayers_key: "comparePlayers a b \<le> 0 \<longleftrightarrow> pairingKey a \<le> pairingKey b"
  by (auto simp: comparePlayers_le pairingKey_def less_eq_prod_def)

lemma insertBy_insort_key:
  assumes "\<And>a b. cmp a b \<le> 0 \<longleftrightarrow> key a \<le> key b"
  shows "insertBy cmp x xs = insort_key key x xs"
  by (induction xs) (simp_all add: assms)

lemma sortBy_sort_key:
  assumes "\<And>a b. cmp a b \<le> 0 \<longleftrightarrow> key a \<le> key b"
  shows "sortBy cmp xs = sort_key key xs"
  by (induction xs) (simp_all add: insertBy_insort_key[OF assms])

lemma sortedPlayers_sort_key:
  "sortedPlayers s = sort_key (\<lambda>p. pairingKey (heap s p)) (activePlayers s)"
  unfolding sortedPlayers_def by (rule sortBy_sort_key) (rule comparePlayers_key)

lemma sortedPlayers_sorted:
  "sorted_wrt (\<lambda>a b. gamesPlayed (heap s a) < gamesPlayed (heap s b) \<or>
                 (gamesPlayed (heap s a) = gamesPlayed (heap s b) \<and>
                  skillOrder (skill (heap s a)) \<le> skillOrder (skill (heap s b))))
     (sortedPlayers s)"
proof -
  have "sorted (map (\<lambda>p. pairingKey (heap s p)) (sortedPlayers s))"
    unfolding sortedPlayers_sort_key by (rule sorted_sort_key)
  then have "sorted_wrt (\<lambda>a b. pairingKey (heap s a) \<le> pairingKey (heap s b)) (sortedPlayers s)"
    by (simp add: sorted_map)
  then show ?thesis
    by (rule sorted_wrt_mono_rel[rotated]) (auto simp: pairingKey_def less_eq_prod_def)
qed

lemma sortedPlayers_stable:
  "filter (\<lambda>p. pairingKey (heap s p) = k) (sortedPlayers s)
   = filter (\<lambda>p. pairingKey (heap s p) = k) (activePlayers s)"
  unfolding sortedPlayers_sort_key by (rule sort_key_stable)

lemma group_nth:
  assumes "j < courtsUsed s" and "k < playersPerMatch (playingType s)"
  shows "take (playersPerMatch (playingType s))
           (drop (j * playersPerMatch (playingType s)) (sortedPlayers s)) ! k
         = sortedPlayers s ! (j * playersPerMatch (playingType s) + k)"
proof -
  from assms(1) have "Suc j * playersPerMatch (playingType s) \<le> courtsUsed s * playersPerMatch (playingType s)"
    by (intro mult_le_mono1) simp
  with courtsUsed_bound[of s] have "j * playersPerMatch (playingType s) \<le> length (sortedPlayers s)"
    by simp
  with assms(2) show ?thesis by simp
qed

lemma pairingKey_eq:
  "pairingKey a = (g, skillOrder k) \<longleftrightarrow> gamesPlayed a = g \<and> skill a = k"
  by (cases "skill a"; cases k) (auto simp: pairingKey_def skillOrder_def)

lemma sortedPlayers_ties:
  "filter (\<lambda>p. gamesPlayed (heap s p) = g \<and> skill (heap s p) = k) (sortedPlayers s)
   = filter (\<lambda>p. gamesPlayed (heap s p) = g \<and> skill (heap s p) = k)
       (filter (\<lambda>p. \<not> isOnLeave (heap s p)) (players s))"
  using sortedPlayers_stable[of s "(g, skillOrder k)"]
  unfolding pairingKey_eq activePlayers_def .

text \<open>
  C2. In a call that passes the validation, the sorted list is a rearrangement of the
  roster players that are not on leave, in ascending order of games played, ties in
  ascending order of tier rank (beginner below intermediate below pro), and players
  that agree in both keep their roster order. The match of court \<open>j + 1\<close> takes the
  positions \<open>j * K\<close> to \<open>j * K + K - 1\<close> of that list: in singles the first of them
  plays the second, in doubles the first two play the last two.
\<close>

theorem generateMatches_pairing:
  assumes "(if playingType s = Single then 2 else 4)
             \<le> length (filter (\<lambda>p. \<not> isOnLeave (heap s p)) (players s))"
  shows "mset (sortedPlayers s) = mset (filter (\<lambda>p. \<not> isOnLeave (heap s p)) (players s))
       \<and> sorted_wrt (\<lambda>a b. gamesPlayed (heap s a) < gamesPlayed (heap s b) \<or>
                       (gamesPlayed (heap s a) = gamesPlayed (heap s b) \<and>
                        skillOrder (skill (heap s a)) \<le> skillOrder (skill (heap s b))))
           (sortedPlayers s)
       \<and> (\<forall>g k. filter (\<lambda>p. gamesPlayed (heap s p) = g \<and> skill (heap s p) = k) (sortedPlayers s)
                = filter (\<lambda>p. gamesPlayed (heap s p) = g \<and> skill (heap s p) = k)
                    (filter (\<lambda>p. \<not> isOnLeave (heap s p)) (players s)))
       \<and> skillOrder Beginner < skillOrder Intermediate
       \<and> skillOrder Intermediate < skillOrder ProPlayer
       \<and> (\<forall>j < length (currentMatches (snd (generateMatches clock stamp s))).
            court (currentMatches (snd (generateMatches clock stamp s)) ! j) = int j + 1
          \<and> (int j + 1) * (if playingType s = Single then 2 else 4) \<le> int (length (sortedPlayers s))
          \<and> team1 (currentMatches (snd (generateMatches clock stamp s)) ! j)
              = (if playingType s = Single then [sortedPlayers s ! (j * 2)]
                 else [sortedPlayers s ! (j * 4), sortedPlayers s ! (j * 4 + 1)])
          \<and> team2 (currentMatches (snd (generateMatches clock stamp s)) ! j)
              = (if playingType s = Single then [sortedPlayers s ! (j * 2 + 1)]
                 else [sortedPlayers s ! (j * 4 + 2), sortedPlayers s ! (j * 4 + 3)]))"
proof -
  let ?ms = "currentMatches (snd (generateMatches clock stamp s))"
  let ?K = "playersPerMatch (playingType s)"
  from assms have ok: "?K \<le> length (activePlayers s)"
    by (simp add: playersPerMatch_def activePlayers_def)
  have perm: "mset (sortedPlayers s) = mset (filter (\<lambda>p. \<not> isOnLeave (heap s p)) (players s))"
    by (simp add: sortedPlayers_def mset_sortBy activePlayers_def)
  have key: "comparePlayers a b \<le> 0 \<longleftrightarrow> pairingKey a \<le> pairingKey b" for a b
    by (auto simp: comparePlayers_def pairingKey_def less_eq_prod_def)
  have srt: "sortedPlayers s
      = sort_key (\<lambda>p. pairingKey (heap s p)) (filter (\<lambda>p. \<not> isOnLeave (heap s p)) (players s))"
    unfolding sortedPlayers_def activePlayers_def by (rule sortBy_sort_key) (rule key)
  have "sorted (map (\<lambda>p. pairingKey (heap s p)) (sortedPlayers s))"
    unfolding srt by (rule sorted_sort_key)
  then have "sorted_wrt (\<lambda>a b. pairingKey (heap s a) \<le> pairingKey (heap s b)) (sortedPlayers s)"
    by (simp add: sorted_map)
  then have ordered: "sorted_wrt (\<lambda>a b. gamesPlayed (heap s a) < gamesPlayed (heap s b) \<or>
                       (gamesPlayed (heap s a) = gamesPlayed (heap s b) \<and>
                        skillOrder (skill (heap s a)) \<le> skillOrder (skill (heap s b))))
           (sortedPlayers s)"
    by (rule sorted_wrt_mono_rel[rotated]) (auto simp: pairingKey_def less_eq_prod_def)
  have keyeq: "pairingKey a = (g, skillOrder k) \<longleftrightarrow> gamesPlayed a = g \<and> skill a = k" for a g k
    by (cases "skill a"; cases k) (auto simp: pairingKey_def skillOrder_def)
  have ties: "filter (\<lambda>p. gamesPlayed (heap s p) = g \<and> skill (heap s p) = k) (sortedPlayers s)
                = filter (\<lambda>p. gamesPlayed (heap s p) = g \<and> skill (heap s p) = k)
                    (filter (\<lambda>p. \<not> isOnLeave (heap s p)) (players s))" for g k
    using sort_key_stable[of "\<lambda>p. pairingKey (heap s p)" "(g, skillOrder k)"
        "filter (\<lambda>p. \<not> isOnLeave (heap s p)) (players s)"]
    unfolding srt[symmetric] keyeq .
  have ranks: "skillOrder Beginner < skillOrder Intermediate"
    "skillOrder Intermediate < skillOrder ProPlayer"
    by (simp_all add: skillOrder_def)
  have len: "length ?ms = courtsUsed s"
    by (simp add: round_matches(1)[OF ok])
  have each: "court (?ms ! j) = int j + 1
          \<and> (int j + 1) * (if playingType s = Single then 2 else 4) \<le> int (length (sortedPlayers s))
          \<and> team1 (?ms ! j) = (if playingType s = Single then [sortedPlayers s ! (j * 2)]
                 else [sortedPlayers s ! (j * 4), sortedPlayers s ! (j * 4 + 1)])
          \<and> team2 (?ms ! j) = (if playingType s = Single then [sortedPlayers s ! (j * 2 + 1)]
                 else [sortedPlayers s ! (j * 4 + 2), sortedPlayers s ! (j * 4 + 3)])"
    if "j < length ?ms" for j
  proof -
    from that len have j: "j < courtsUsed s" by simp
    let ?mp = "take ?K (drop (j * ?K) (sortedPlayers s))"
    have m: "?ms ! j = mkMatch (playingType s) (roundNumber s) (clock j) j ?mp"
      using j by (simp add: round_matches(1)[OF ok])
    from j have "Suc j * ?K \<le> courtsUsed s * ?K" by (intro mult_le_mono1) simp
    with courtsUsed_bound[of s] have "Suc j * ?K \<le> length (sortedPlayers s)" by linarith
    then have "int (Suc j * ?K) \<le> int (length (sortedPlayers s))" by (simp only: of_nat_le_iff)
    then have bound: "(int j + 1) * int ?K \<le> int (length (sortedPlayers s))"
      by (simp add: algebra_simps)
    have nth: "?mp ! k = sortedPlayers s ! (j * ?K + k)" if "k < ?K" for k
      using group_nth[OF j that] .
    show ?thesis
    proof (cases "playingType s = Single")
      case True
      then have K: "?K = 2" by (simp add: playersPerMatch_def)
      from nth[of 0] nth[of 1] show ?thesis
        unfolding m K using True bound by (simp add: mkMatch_def playersPerMatch_def algebra_simps)
    next
      case False
      then have K: "?K = 4" by (simp add: playersPerMatch_def)
      from nth[of 0] nth[of 1] nth[of 2] nth[of 3] show ?thesis
        unfolding m K using False bound by (simp add: mkMatch_def playersPerMatch_def algebra_simps)
    qed
  qed
  from perm ordered ties ranks each show ?thesis by blast
qed

theorem generateMatches_pairing_witness:
  "(if playingType club = Single then 2 else 4)
      \<le> length (filter (\<lambda>p. \<not> isOnLeave (heap club p)) (players club))
   \<and> filter (\<lambda>p. \<not> isOnLeave (heap club p)) (players club) = [0, 1, 2, 4, 5, 6, 7, 8, 9, 10, 11]
   \<and> sortedPlayers club = [2, 6, 4, 1, 9, 0, 8, 7, 5, 10, 11]
   \<and> length (currentMatches (snd (generateMatches (\<lambda>_. 0) 0 club))) = 2
   \<and> court (currentMatches (snd (generateMatches (\<lambda>_. 0) 0 club)) ! 0) = 1
   \<and> team1 (currentMatches (snd (generateMatches (\<lambda>_. 0) 0 club)) ! 0) = [2, 6]
   \<and> team2 (currentMatches (snd (generateMatches (\<lambda>_. 0) 0 club)) ! 0) = [4, 1]
   \<and> court (currentMatches (snd (generateMatches (\<lambda>_. 0) 0 club)) ! 1) = 2
   \<and> team1 (currentMatches (snd (generateMatches (\<lambda>_. 0) 0 club)) ! 1) = [9, 0]
   \<and> team2 (currentMatches (snd (generateMatches (\<lambda>_. 0) 0 club)) ! 1) = [8, 7]"
proof -
  have N: "length (filter (\<lambda>p. \<not> isOnLeave (heap club p)) (players club)) = 11"
    by (simp only: club_onLeave) simp
  have v: "(if playingType club = Single then 2 else 4)
        \<le> length (filter (\<lambda>p. \<not> isOnLeave (heap club p)) (players club))"
    unfolding N by simp
  have len: "length (currentMatches (snd (generateMatches (\<lambda>_. 0) 0 club))) = 2"
    by (simp add: club_matches)
  have dbl: "playingType club \<noteq> Single" by (simp add: club_fields)
  note T = generateMatches_pairing[OF v, of "\<lambda>_. 0" 0]
  from T len have m0: "court (currentMatches (snd (generateMatches (\<lambda>_. 0) 0 club)) ! 0) = 1
     \<and> team1 (currentMatches (snd (generateMatches (\<lambda>_. 0) 0 club)) ! 0) = [2, 6]
     \<and> team2 (currentMatches (snd (generateMatches (\<lambda>_. 0) 0 club)) ! 0) = [4, 1]"
    using dbl by (simp add: club_sorted)
  from T len have m1: "court (currentMatches (snd (generateMatches (\<lambda>_. 0) 0 club)) ! 1) = 2
     \<and> team1 (currentMatches (snd (generateMatches (\<lambda>_. 0) 0 club)) ! 1) = [9, 0]
     \<and> team2 (currentMatches (snd (generateMatches (\<lambda>_. 0) 0 club)) ! 1) = [8, 7]"
    using dbl by (simp add: club_sorted)
  from v club_onLeave club_sorted len m0 m1 show ?thesis by blast
qed

subsection \<open>Stored matches and the object store\<close>

lemma trim_letter: "trim (js ''A'') = js ''A''" "trim (js ''B'') = js ''B''"
  by (simp_all add: trim_def js_def isWhiteSpace_def)

lemma duel_eval:
  "duel = initialApp \<lparr> heap := (\<lambda>_. blankPlayer)
             (0 := \<lparr> id_player = toString 1, name = js ''A'', skill = Intermediate,
                     gamesPlayed = 0, isOnLeave = False \<rparr>,
              1 := \<lparr> id_player = toString 2, name = js ''B'', skill = Intermediate,
                     gamesPlayed = 0, isOnLeave = False \<rparr>),
           fresh := 2, players := [0, 1], playingType := Single \<rparr>"
proof -
  have nonempty: "js ''A'' \<noteq> []" "js ''B'' \<noteq> []" by (simp_all add: js_def)
  show ?thesis
    unfolding duel_def
    by (simp add: addPlayer_def setPlayerName_def setPlayingType_def initialApp_def trim_letter
        nonempty Let_def numeral_2_eq_2)
qed



lemma duel_fields:
  "players duel = [0, 1]" "playingType duel = Single" "courts duel = 1" "roundNumber duel = 1"
  "history duel = []"
  "isOnLeave (heap duel 0) = False" "isOnLeave (heap duel (Suc 0)) = False"
  "gamesPlayed (heap duel 0) = 0" "gamesPlayed (heap duel (Suc 0)) = 0"
  "skill (heap duel 0) = Intermediate" "skill (heap duel (Suc 0)) = Intermediate"
  by (simp_all add: duel_eval initialApp_def)

lemma duel_active: "activePlayers duel = [0, 1]"
  by (simp add: activePlayers_def duel_fields)

lemma duel_sorted: "sortedPlayers duel = [0, 1]"
  by (simp add: sortedPlayers_def duel_active comparePlayers_def duel_fields)

lemma duel_courtsUsed: "courtsUsed duel = 1"
  by (simp add: courtsUsed_def duel_active duel_fields playersPerMatch_def)

lemma duel_valid: "playersPerMatch (playingType duel) \<le> length (activePlayers duel)"
  by (simp add: duel_active duel_fields playersPerMatch_def)

lemma duelRound1_heap: "heap duelRound1 = bumpGames [0, 1] (heap duel)"
  unfolding duelRound1_def
  using duel_valid
  by (simp add: generateMatches_valid valid_iff duel_courtsUsed duel_sorted duel_fields playersPerMatch_def)

lemma duelRound1_eval:
  "currentMatches duelRound1 = [mkMatch Single 1 10 0 [0, 1]]"
  "history duelRound1 = [\<lparr> round_entry = 1, matches = [mkMatch Single 1 10 0 [0, 1]], timestamp = 10 \<rparr>]"
  "players duelRound1 = [0, 1]" "playingType duelRound1 = Single" "courts duelRound1 = 1"
  "roundNumber duelRound1 = 2"
  unfolding duelRound1_def
  using duel_valid
  by (simp_all add: generateMatches_valid valid_iff duel_courtsUsed duel_sorted duel_fields playersPerMatch_def)


lemma duelRound1_store:
  "heap duelRound1 p = (if p = 0 \<or> p = Suc 0 then (heap duel p)\<lparr> gamesPlayed := 1 \<rparr> else heap duel p)"
  unfolding duelRound1_heap using bumpGames_distinct[of "[0, 1]" "heap duel" p]
  by (auto simp: duel_fields)

lemma duelRound1_active: "activePlayers duelRound1 = [0, 1]"
  by (simp add: activePlayers_def duelRound1_eval duelRound1_store duel_fields)

lemma duelRound1_sorted: "sortedPlayers duelRound1 = [0, 1]"
  by (simp add: sortedPlayers_def duelRound1_active comparePlayers_def duelRound1_store duel_fields)

lemma duelRound1_courtsUsed: "courtsUsed duelRound1 = 1"
  by (simp add: courtsUsed_def duelRound1_active duelRound1_eval playersPerMatch_def)

lemma duelRound1_valid:
  "playersPerMatch (playingType duelRound1) \<le> length (activePlayers duelRound1)"
  by (simp add: duelRound1_active duelRound1_eval playersPerMatch_def)

lemma duelRound2_heap: "heap duelRound2 = bumpGames [0, 1] (heap duelRound1)"
  unfolding duelRound2_def
  using duelRound1_valid
  by (simp add: generateMatches_valid valid_iff duelRound1_courtsUsed duelRound1_sorted
      duelRound1_eval playersPerMatch_def)

lemma duelRound2_eval:
  "history duelRound2 = \<lparr> round_entry = 2, matches = [mkMatch Single 2 20 0 [0, 1]], timestamp = 20 \<rparr>
                         # history duelRound1"
  unfolding duelRound2_def
  using duelRound1_valid
  by (simp add: generateMatches_valid valid_iff duelRound1_courtsUsed duelRound1_sorted
      duelRound1_eval playersPerMatch_def)

lemma duelRound2_store:
  "heap duelRound2 p = (if p = 0 \<or> p = Suc 0 then (heap duel p)\<lparr> gamesPlayed := 2 \<rparr> else heap duel p)"
  unfolding duelRound2_heap using bumpGames_distinct[of "[0, 1]" "heap duelRound1" p]
  by (auto simp: duelRound1_store)

text \<open>
  C5, as stated, fails. In the session \<open>duel\<close> player A has played no game when the
  match of round 1 is built; read through that stored match, A's counter is 1 after
  round 1 and 2 after round 2, although the history entry itself is the same value.
\<close>

theorem stored_match_not_snapshot:
  "hd (matches (history duelRound2 ! 1)) = hd (matches (hd (history duelRound1)))
   \<and> map gamesPlayed (fst (matchContents (heap duel) (hd (matches (hd (history duelRound1)))))) = [0]
   \<and> map gamesPlayed (fst (matchContents (heap duelRound1) (hd (matches (hd (history duelRound1)))))) = [1]
   \<and> map gamesPlayed (fst (matchContents (heap duelRound2) (hd (matches (history duelRound2 ! 1))))) = [2]"
  by (simp add: duelRound2_eval duelRound1_eval matchContents_def mkMatch_def
      duelRound1_store duelRound2_store duel_fields)

lemma bumpGames_fields:
  "bumpGames ps h p = (h p)\<lparr> gamesPlayed := gamesPlayed (h p) + int (count_list ps p) \<rparr>"
proof (induction ps arbitrary: h)
  case Nil
  show ?case by (simp add: bumpGames_def)
next
  case (Cons q ps)
  have step: "bumpGames (q # ps) h = bumpGames ps (h(q := (h q)\<lparr> gamesPlayed := gamesPlayed (h q) + 1 \<rparr>))"
    by (simp add: bumpGames_def)
  show ?case unfolding step Cons.IH by simp
qed

lemma generateMatches_store:
  "sameButGames (heap s p) (heap (snd (generateMatches clock stamp s)) p)"
proof (cases "playersPerMatch (playingType s) \<le> length (activePlayers s)")
  case True
  show ?thesis
    unfolding round_matches(2)[OF True] bumpGames_fields by (simp add: sameButGames_def)
next
  case False
  then have "int (length (activePlayers s)) < (if playingType s = Single then 2 else 4)"
    by (simp add: playersPerMatch_def split: if_splits)
  then show ?thesis by (simp add: generateMatches_def sameButGames_def)
qed

lemma generateMatches_history:
  "history (snd (generateMatches clock stamp s)) = history s
   \<or> tl (history (snd (generateMatches clock stamp s))) = history s"
  by (simp add: generateMatches_def Let_def split: prod.splits)

lemma toggleMap_frame:
  assumes "toggleMap i ps h f = (qs, h', f')"
  shows "f \<le> f' \<and> (\<forall>p < f. h' p = h p) \<and> (\<forall>q \<in> set qs. q \<in> set ps \<or> (f \<le> q \<and> q < f'))"
  using assms
proof (induction ps arbitrary: h f qs h' f')
  case Nil
  then show ?case by simp
next
  case (Cons p ps)
  show ?case
  proof (cases "id_player (h p) = i")
    case True
    obtain qs0 h0 f0 where r: "toggleMap i ps (h(f := (h p)\<lparr> isOnLeave := \<not> isOnLeave (h p) \<rparr>)) (Suc f) = (qs0, h0, f0)"
      by (metis prod_cases3)
    with True Cons.prems have eq: "qs = f # qs0" "h' = h0" "f' = f0" by simp_all
    from Cons.IH[OF r] show ?thesis unfolding eq by auto
  next
    case False
    obtain qs0 h0 f0 where r: "toggleMap i ps h f = (qs0, h0, f0)"
      by (metis prod_cases3)
    with False Cons.prems have eq: "qs = p # qs0" "h' = h0" "f' = f0" by simp_all
    from Cons.IH[OF r] show ?thesis unfolding eq by auto
  qed
qed

lemma toggleMap_distinct:
  assumes "toggleMap i ps h f = (qs, h', f')" and "distinct ps" and "\<forall>p \<in> set ps. p < f"
  shows "distinct qs"
  using assms
proof (induction ps arbitrary: h f qs h' f')
  case Nil
  then show ?case by simp
next
  case (Cons p ps)
  show ?case
  proof (cases "id_player (h p) = i")
    case True
    obtain qs0 h0 f0 where r: "toggleMap i ps (h(f := (h p)\<lparr> isOnLeave := \<not> isOnLeave (h p) \<rparr>)) (Suc f) = (qs0, h0, f0)"
      by (metis prod_cases3)
    with True Cons.prems(1) have eq: "qs = f # qs0" by simp
    from Cons.prems have "distinct ps" "\<forall>p \<in> set ps. p < Suc f" by auto
    from Cons.IH[OF r this] have d: "distinct qs0" .
    from toggleMap_frame[OF r] Cons.prems(3) have "f \<notin> set qs0" by fastforce
    with d show ?thesis unfolding eq by simp
  next
    case False
    obtain qs0 h0 f0 where r: "toggleMap i ps h f = (qs0, h0, f0)"
      by (metis prod_cases3)
    with False Cons.prems(1) have eq: "qs = p # qs0" by simp
    from Cons.prems have "distinct ps" "\<forall>p \<in> set ps. p < f" by auto
    from Cons.IH[OF r this] have d: "distinct qs0" .
    from toggleMap_frame[OF r] Cons.prems(2,3) have "p \<notin> set qs0" by fastforce
    with d show ?thesis unfolding eq by simp
  qed
qed

lemma wellFormed_initialApp: "wellFormed initialApp"
  by (simp add: wellFormed_def initialApp_def)

lemma wellFormed_addPlayer: "wellFormed s \<Longrightarrow> wellFormed (addPlayer now s)"
  by (auto simp: wellFormed_def addPlayer_def Let_def less_Suc_eq)

lemma wellFormed_setters:
  "wellFormed (setPlayerName v s) = wellFormed s"
  "wellFormed (setPlayerSkill k s) = wellFormed s"
  "wellFormed (setPlayingType t s) = wellFormed s"
  "wellFormed (toggleAdvancedMode s) = wellFormed s"
  "wellFormed (onChangeCourts v s) = wellFormed s"
  by (simp_all add: wellFormed_def setPlayerName_def setPlayerSkill_def setPlayingType_def
      toggleAdvancedMode_def onChangeCourts_def)

lemma wellFormed_endDay: "wellFormed s \<Longrightarrow> wellFormed (endDay b s)"
  by (simp add: wellFormed_def endDay_def)

lemma wellFormed_removePlayer: "wellFormed s \<Longrightarrow> wellFormed (removePlayer i s)"
  by (auto simp: wellFormed_def removePlayer_def)

lemma wellFormed_toggleLeave:
  assumes "wellFormed s"
  shows "wellFormed (toggleLeave i s)"
proof -
  obtain qs h' f' where r: "toggleMap i (players s) (heap s) (fresh s) = (qs, h', f')"
    by (metis prod_cases3)
  from assms have d: "distinct (players s)" and b: "\<forall>p \<in> set (players s). p < fresh s"
    by (simp_all add: wellFormed_def)
  note fr = toggleMap_frame[OF r]
  have "distinct qs" by (rule toggleMap_distinct[OF r d b])
  moreover have "\<forall>q \<in> set qs. q < f'" using fr b by fastforce
  moreover have "fresh s \<le> f'" using fr by simp
  ultimately show ?thesis
    using assms unfolding toggleLeave_def r wellFormed_def by fastforce
qed

lemma wellFormed_generateMatches:
  assumes "wellFormed s"
  shows "wellFormed (snd (generateMatches clock stamp s))"
proof (cases "playersPerMatch (playingType s) \<le> length (activePlayers s)")
  case True
  let ?s' = "snd (generateMatches clock stamp s)"
  have new: "p < fresh s" if "m \<in> set (currentMatches ?s')" "p \<in> set (members m)" for m p
  proof -
    from that have "p \<in> set (concat (map members (currentMatches ?s')))" by auto
    then have "p \<in> set (sortedPlayers s)"
      unfolding round_placed[OF True] by (rule in_set_takeD)
    then have "p \<in> set (players s)"
      by (simp add: sortedPlayers_def set_sortBy activePlayers_def)
    with assms show ?thesis by (simp add: wellFormed_def)
  qed
  from True have v: "\<not> int (length (activePlayers s)) < (if playingType s = Single then 2 else 4)"
    by (simp add: valid_iff)
  have st: "players ?s' = players s" "fresh ?s' = fresh s"
    "history ?s' = \<lparr> round_entry = roundNumber s, matches = currentMatches ?s', timestamp = stamp \<rparr> # history s"
    by (simp_all add: generateMatches_valid[OF v])
  show ?thesis
    using assms new unfolding wellFormed_def st by auto
next
  case False
  then have "int (length (activePlayers s)) < (if playingType s = Single then 2 else 4)"
    by (simp add: playersPerMatch_def split: if_splits)
  with assms show ?thesis by (simp add: generateMatches_def)
qed

lemma wellFormed_stored:
  assumes "wellFormed s" and "m \<in> storedMatches s"
  shows "\<forall>p \<in> set (team1 m). p < fresh s" and "\<forall>p \<in> set (team2 m). p < fresh s"
  using assms by (auto simp: wellFormed_def storedMatches_def members_def)

text \<open>
  C5, amended. A stored match holds references to the roster's player objects, not
  copies. Its team arrays are never changed, \<open>removePlayer\<close> and \<open>toggleLeave\<close> leave
  every stored match and all that it shows as they are (\<open>toggleLeave\<close> puts a new
  object in the roster), and \<open>generateMatches\<close> keeps the older history entries and
  changes no id, name, skill or on-leave flag; the games-played value seen through a
  stored match, however, is the live counter of the shared object, which never goes
  down and which a validated \<open>generateMatches\<close> raises by one for exactly the players
  it places in a match of the new round.
\<close>

theorem stored_matches_frame:
  assumes "wellFormed s" and "m \<in> storedMatches s"
  shows "currentMatches (removePlayer i s) = currentMatches s
       \<and> history (removePlayer i s) = history s
       \<and> matchContents (heap (removePlayer i s)) m = matchContents (heap s) m
       \<and> currentMatches (toggleLeave i s) = currentMatches s
       \<and> history (toggleLeave i s) = history s
       \<and> matchContents (heap (toggleLeave i s)) m = matchContents (heap s) m
       \<and> (history (snd (generateMatches clock stamp s)) = history s
          \<or> tl (history (snd (generateMatches clock stamp s))) = history s)
       \<and> list_all2 sameButGames (fst (matchContents (heap s) m))
            (fst (matchContents (heap (snd (generateMatches clock stamp s))) m))
       \<and> list_all2 sameButGames (snd (matchContents (heap s) m))
            (snd (matchContents (heap (snd (generateMatches clock stamp s))) m))
       \<and> ((if playingType s = Single then 2 else 4)
             \<le> length (filter (\<lambda>p. \<not> isOnLeave (heap s p)) (players s)) \<longrightarrow>
           (\<forall>p. heap (snd (generateMatches clock stamp s)) p =
              (if \<exists>m' \<in> set (currentMatches (snd (generateMatches clock stamp s))).
                    p \<in> set (team1 m' @ team2 m')
               then (heap s p)\<lparr> gamesPlayed := gamesPlayed (heap s p) + 1 \<rparr>
               else heap s p)))"
proof -
  obtain qs h' f' where r: "toggleMap i (players s) (heap s) (fresh s) = (qs, h', f')"
    by (metis prod_cases3)
  have tl: "currentMatches (toggleLeave i s) = currentMatches s"
    "history (toggleLeave i s) = history s" "heap (toggleLeave i s) = h'"
    by (simp_all add: toggleLeave_def r)
  have "\<forall>p < fresh s. h' p = heap s p" using toggleMap_frame[OF r] by simp
  with wellFormed_stored[OF assms] have
    "map h' (team1 m) = map (heap s) (team1 m)" "map h' (team2 m) = map (heap s) (team2 m)"
    by simp_all
  then have tc: "matchContents (heap (toggleLeave i s)) m = matchContents (heap s) m"
    by (simp add: matchContents_def tl)
  have rm: "currentMatches (removePlayer i s) = currentMatches s"
    "history (removePlayer i s) = history s"
    "matchContents (heap (removePlayer i s)) m = matchContents (heap s) m"
    by (simp_all add: removePlayer_def)
  have g: "list_all2 sameButGames (map (heap s) ps)
             (map (heap (snd (generateMatches clock stamp s))) ps)" for ps
    by (simp add: list_all2_conv_all_nth generateMatches_store)
  have up: "heap (snd (generateMatches clock stamp s)) p =
              (if \<exists>m' \<in> set (currentMatches (snd (generateMatches clock stamp s))).
                    p \<in> set (team1 m' @ team2 m')
               then (heap s p)\<lparr> gamesPlayed := gamesPlayed (heap s p) + 1 \<rparr>
               else heap s p)"
    if v: "(if playingType s = Single then 2 else 4)
             \<le> length (filter (\<lambda>p. \<not> isOnLeave (heap s p)) (players s))" for p
  proof -
    from assms(1) have d: "distinct (players s)" by (simp add: wellFormed_def)
    from v have ok: "playersPerMatch (playingType s) \<le> length (activePlayers s)"
      by (simp only: valid_explicit)
    from round_store[OF d ok, of clock stamp p] show ?thesis by (simp add: members_def)
  qed
  have frame: "currentMatches (removePlayer i s) = currentMatches s
       \<and> history (removePlayer i s) = history s
       \<and> matchContents (heap (removePlayer i s)) m = matchContents (heap s) m
       \<and> currentMatches (toggleLeave i s) = currentMatches s
       \<and> history (toggleLeave i s) = history s
       \<and> matchContents (heap (toggleLeave i s)) m = matchContents (heap s) m
       \<and> (history (snd (generateMatches clock stamp s)) = history s
          \<or> tl (history (snd (generateMatches clock stamp s))) = history s)
       \<and> list_all2 sameButGames (fst (matchContents (heap s) m))
            (fst (matchContents (heap (snd (generateMatches clock stamp s))) m))
       \<and> list_all2 sameButGames (snd (matchContents (heap s) m))
            (snd (matchContents (heap (snd (generateMatches clock stamp s))) m))"
    using rm tl(1,2) tc generateMatches_history[of clock stamp s] g[of "team1 m"] g[of "team2 m"]
    by (simp add: matchContents_def)
  from frame up show ?thesis by blast
qed

theorem stored_matches_frame_witness:
  "wellFormed duelRound1
   \<and> hd (currentMatches duelRound1) \<in> storedMatches duelRound1
   \<and> matchContents (heap (toggleLeave (toString 1) duelRound1)) (hd (currentMatches duelRound1))
        = matchContents (heap duelRound1) (hd (currentMatches duelRound1))
   \<and> (if playingType duelRound1 = Single then 2 else 4)
        \<le> length (filter (\<lambda>p. \<not> isOnLeave (heap duelRound1 p)) (players duelRound1))
   \<and> map (gamesPlayed \<circ> heap duelRound1) [0, 1] = [1, 1]
   \<and> map (gamesPlayed \<circ> heap (snd (generateMatches (\<lambda>_. 20) 20 duelRound1))) [0, 1] = [2, 2]"
proof -
  have "wellFormed duel"
    unfolding duel_def
    by (simp add: wellFormed_addPlayer wellFormed_setters wellFormed_initialApp)
  then have wf: "wellFormed duelRound1"
    unfolding duelRound1_def by (rule wellFormed_generateMatches)
  have st: "hd (currentMatches duelRound1) \<in> storedMatches duelRound1"
    by (simp add: storedMatches_def duelRound1_eval)
  have v: "(if playingType duelRound1 = Single then 2 else 4)
        \<le> length (filter (\<lambda>p. \<not> isOnLeave (heap duelRound1 p)) (players duelRound1))"
    using duelRound1_valid by (simp only: valid_explicit)
  note T = stored_matches_frame[OF wf st, of "toString 1" "\<lambda>_. 20" 20]
  from T have c: "matchContents (heap (toggleLeave (toString 1) duelRound1)) (hd (currentMatches duelRound1))
        = matchContents (heap duelRound1) (hd (currentMatches duelRound1))"
    by blast
  from T v have up: "heap (snd (generateMatches (\<lambda>_. 20) 20 duelRound1)) p =
      (if \<exists>m' \<in> set (currentMatches (snd (generateMatches (\<lambda>_. 20) 20 duelRound1))).
            p \<in> set (team1 m' @ team2 m')
       then (heap duelRound1 p)\<lparr> gamesPlayed := gamesPlayed (heap duelRound1 p) + 1 \<rparr>
       else heap duelRound1 p)" for p
    by blast
  have ms: "currentMatches (snd (generateMatches (\<lambda>_. 20) 20 duelRound1))
        = [mkMatch Single 2 20 0 [0, 1]]"
    using duelRound1_valid
    by (simp add: generateMatches_valid valid_iff duelRound1_courtsUsed duelRound1_sorted
        duelRound1_eval playersPerMatch_def)
  have g1: "map (gamesPlayed \<circ> heap duelRound1) [0, 1] = [1, 1]"
    by (simp add: duelRound1_store)
  have g2: "map (gamesPlayed \<circ> heap (snd (generateMatches (\<lambda>_. 20) 20 duelRound1))) [0, 1] = [2, 2]"
    by (simp add: up ms mkMatch_def duelRound1_store)
  from wf st c v g1 g2 show ?thesis by blast
qed

subsection \<open>Advanced mode and the tiers\<close>

lemma letter_nonempty: "js ''A'' \<noteq> []" "js ''B'' \<noteq> []"
  by (simp_all add: js_def)

lemma tiersOff_eval:
  "tiersOff = initialApp \<lparr> heap := (\<lambda>_. blankPlayer)
             (0 := \<lparr> id_player = toString 1, name = js ''A'', skill = ProPlayer,
                     gamesPlayed = 0, isOnLeave = False \<rparr>,
              1 := \<lparr> id_player = toString 2, name = js ''B'', skill = Beginner,
                     gamesPlayed = 0, isOnLeave = False \<rparr>),
           fresh := 2, players := [0, 1], playerSkill := Beginner, playingType := Single \<rparr>"
proof -
  have nonempty: "js ''A'' \<noteq> []" "js ''B'' \<noteq> []" by (simp_all add: js_def)
  show ?thesis
    unfolding tiersOff_def
    by (simp add: addPlayer_def setPlayerName_def setPlayerSkill_def setPlayingType_def
        toggleAdvancedMode_def initialApp_def trim_letter nonempty Let_def numeral_2_eq_2)
qed

lemma tiersOff_fields:
  "players tiersOff = [0, 1]" "advancedMode tiersOff = False"
  "isOnLeave (heap tiersOff 0) = False" "isOnLeave (heap tiersOff (Suc 0)) = False"
  "gamesPlayed (heap tiersOff 0) = 0" "gamesPlayed (heap tiersOff (Suc 0)) = 0"
  "skill (heap tiersOff 0) = ProPlayer" "skill (heap tiersOff (Suc 0)) = Beginner"
  "id_player (heap tiersOff 0) = id_player (heap duel 0)"
  "id_player (heap tiersOff (Suc 0)) = id_player (heap duel (Suc 0))"
  "name (heap tiersOff 0) = name (heap duel 0)"
  "name (heap tiersOff (Suc 0)) = name (heap duel (Suc 0))"
  by (simp_all add: tiersOff_eval duel_eval initialApp_def)

text \<open>
  C6, as stated, fails. \<open>tiersOff\<close> and \<open>duel\<close> both have advanced mode off and the same
  two active players with no games; they differ only in the stored tiers, and the sort
  puts B first in the one and A first in the other.
\<close>

theorem sort_reads_stored_tiers:
  "advancedMode tiersOff = False \<and> advancedMode duel = False
   \<and> activePlayers tiersOff = [0, 1] \<and> activePlayers duel = [0, 1]
   \<and> map (gamesPlayed \<circ> heap tiersOff) [0, 1] = [0, 0]
   \<and> map (gamesPlayed \<circ> heap duel) [0, 1] = [0, 0]
   \<and> map (isOnLeave \<circ> heap tiersOff) [0, 1] = map (isOnLeave \<circ> heap duel) [0, 1]
   \<and> map (id_player \<circ> heap tiersOff) [0, 1] = map (id_player \<circ> heap duel) [0, 1]
   \<and> map (name \<circ> heap tiersOff) [0, 1] = map (name \<circ> heap duel) [0, 1]
   \<and> map (skill \<circ> heap tiersOff) [0, 1] = [ProPlayer, Beginner]
   \<and> map (skill \<circ> heap duel) [0, 1] = [Intermediate, Intermediate]
   \<and> sortedPlayers tiersOff = [1, 0]
   \<and> sortedPlayers duel = [0, 1]"
proof -
  have a: "activePlayers tiersOff = [0, 1]"
    by (simp add: activePlayers_def tiersOff_fields)
  have "sortedPlayers tiersOff = [1, 0]"
    by (simp add: sortedPlayers_def a comparePlayers_def skillOrder_def tiersOff_fields)
  moreover have "advancedMode duel = False"
    by (simp add: duel_eval initialApp_def)
  ultimately show ?thesis
    using a by (simp add: tiersOff_fields duel_fields duel_active duel_sorted)
qed

lemma sortedPlayers_advancedMode:
  "sortedPlayers (s\<lparr> advancedMode := b \<rparr>) = sortedPlayers s"
  by (simp add: sortedPlayers_def activePlayers_def)

lemma trim_Nil_iff: "trim s = [] \<longleftrightarrow> (\<forall>c \<in> set s. isWhiteSpace c)"
proof
  assume "trim s = []"
  then have "\<forall>c \<in> set (dropWhile isWhiteSpace s). isWhiteSpace c"
    by (simp add: trim_def)
  then have "dropWhile isWhiteSpace s = []"
    using hd_dropWhile[of isWhiteSpace s] hd_in_set[of "dropWhile isWhiteSpace s"] by blast
  then show "\<forall>c \<in> set s. isWhiteSpace c" by simp
next
  assume "\<forall>c \<in> set s. isWhiteSpace c"
  then have e: "dropWhile isWhiteSpace s = []" by simp
  show "trim s = []" unfolding trim_def e by simp
qed

text \<open>
  C6, amended. The pairing sort does not read the advanced-mode flag; whatever the
  flag, its result is in ascending order of games played with ties in ascending order of
  the stored tiers. What the flag decides is the tier that \<open>addPlayer\<close>
  stores: the neutral one while it is off. Whenever all active players have the same
  stored tier, players with equal games-played counts keep their roster order.
\<close>

theorem neutral_tier_pairing:
  "sortedPlayers (s\<lparr> advancedMode := b \<rparr>) = sortedPlayers s
   \<and> sorted_wrt (\<lambda>a b. gamesPlayed (heap s a) < gamesPlayed (heap s b) \<or>
                   (gamesPlayed (heap s a) = gamesPlayed (heap s b) \<and>
                    skillOrder (skill (heap s a)) \<le> skillOrder (skill (heap s b))))
       (sortedPlayers s)
   \<and> (\<not> advancedMode s \<and> trim (playerName s) \<noteq> [] \<longrightarrow>
        skill (heap (addPlayer now s) (last (players (addPlayer now s)))) = Intermediate)
   \<and> ((\<forall>p \<in> set (activePlayers s). skill (heap s p) = k) \<longrightarrow>
        filter (\<lambda>p. gamesPlayed (heap s p) = g) (sortedPlayers s)
        = filter (\<lambda>p. gamesPlayed (heap s p) = g) (activePlayers s))"
proof (intro conjI impI)
  show "sortedPlayers (s\<lparr> advancedMode := b \<rparr>) = sortedPlayers s"
    by (rule sortedPlayers_advancedMode)
next
  show "sorted_wrt (\<lambda>a b. gamesPlayed (heap s a) < gamesPlayed (heap s b) \<or>
                   (gamesPlayed (heap s a) = gamesPlayed (heap s b) \<and>
                    skillOrder (skill (heap s a)) \<le> skillOrder (skill (heap s b))))
       (sortedPlayers s)"
    by (rule sortedPlayers_sorted)
next
  assume "\<not> advancedMode s \<and> trim (playerName s) \<noteq> []"
  then show "skill (heap (addPlayer now s) (last (players (addPlayer now s)))) = Intermediate"
    by (simp add: addPlayer_def Let_def)
next
  assume same: "\<forall>p \<in> set (activePlayers s). skill (heap s p) = k"
  then have same': "\<forall>p \<in> set (sortedPlayers s). skill (heap s p) = k"
    by (simp add: sortedPlayers_def set_sortBy)
  have "filter (\<lambda>p. gamesPlayed (heap s p) = g) (sortedPlayers s)
        = filter (\<lambda>p. pairingKey (heap s p) = (g, skillOrder k)) (sortedPlayers s)"
    using same' by (intro filter_cong refl) (auto simp: pairingKey_def)
  also have "\<dots> = filter (\<lambda>p. pairingKey (heap s p) = (g, skillOrder k)) (activePlayers s)"
    by (rule sortedPlayers_stable)
  also have "\<dots> = filter (\<lambda>p. gamesPlayed (heap s p) = g) (activePlayers s)"
    using same by (intro filter_cong refl) (auto simp: pairingKey_def)
  finally show "filter (\<lambda>p. gamesPlayed (heap s p) = g) (sortedPlayers s)
        = filter (\<lambda>p. gamesPlayed (heap s p) = g) (activePlayers s)" .
qed

theorem neutral_tier_pairing_witness:
  "(\<not> advancedMode (setPlayerName (js ''A'') initialApp)
      \<and> trim (playerName (setPlayerName (js ''A'') initialApp)) \<noteq> []
      \<and> skill (heap (addPlayer 1 (setPlayerName (js ''A'') initialApp))
                (last (players (addPlayer 1 (setPlayerName (js ''A'') initialApp))))) = Intermediate)
   \<and> (list_all (\<lambda>p. skill (heap duel p) = Intermediate) (activePlayers duel)
      \<and> filter (\<lambda>p. gamesPlayed (heap duel p) = 0) (sortedPlayers duel) = [0, 1])"
proof -
  have h1: "\<not> advancedMode (setPlayerName (js ''A'') initialApp)
      \<and> trim (playerName (setPlayerName (js ''A'') initialApp)) \<noteq> []"
    using letter_nonempty by (simp add: setPlayerName_def initialApp_def trim_letter)
  have h2: "\<forall>p \<in> set (activePlayers duel). skill (heap duel p) = Intermediate"
    by (simp add: duel_active duel_fields)
  from neutral_tier_pairing[where s = "setPlayerName (js ''A'') initialApp" and now = 1] h1
  have "skill (heap (addPlayer 1 (setPlayerName (js ''A'') initialApp))
                (last (players (addPlayer 1 (setPlayerName (js ''A'') initialApp))))) = Intermediate"
    by blast
  moreover from neutral_tier_pairing[where s = duel and k = Intermediate and g = 0] h2
  have "filter (\<lambda>p. gamesPlayed (heap duel p) = 0) (sortedPlayers duel)
        = filter (\<lambda>p. gamesPlayed (heap duel p) = 0) (activePlayers duel)"
    by blast
  then have "filter (\<lambda>p. gamesPlayed (heap duel p) = 0) (sortedPlayers duel) = [0, 1]"
    by (simp add: duel_active duel_fields)
  ultimately show ?thesis using h1 h2 by (simp add: list_all_iff)
qed

subsection \<open>Adding a player\<close>

lemma fromDigits_toString: "fromDigits (toString n) = n"
proof (induction n rule: toString.induct)
  case (1 n)
  show ?case
  proof (cases "n < 10")
    case True
    then show ?thesis by (simp add: toString.simps[of n] fromDigits_def)
  next
    case False
    with 1 have "fromDigits (toString (n div 10)) = n div 10" by simp
    with False show ?thesis
      by (simp add: toString.simps[of n] fromDigits_def)
  qed
qed

lemma toString_inject: "toString a = toString b \<longleftrightarrow> a = b"
  by (metis fromDigits_toString)

lemma sameTime_eval:
  "players sameTime = [0, 1]"
  "id_player (heap sameTime 0) = toString 5"
  "id_player (heap sameTime (Suc 0)) = toString 5"
  unfolding sameTime_def
  using letter_nonempty
  by (simp_all add: addPlayer_def setPlayerName_def initialApp_def trim_letter Let_def)

text \<open>
  C8, as stated, fails in its uniqueness part. The id is the reading of the clock, and
  the roster is not consulted: two players added within the same millisecond get the
  same id.
\<close>

theorem addPlayer_same_id:
  "players sameTime = [0, 1]
   \<and> id_player (heap sameTime 0) = id_player (heap sameTime 1)
   \<and> \<not> distinct (map (id_player \<circ> heap sameTime) (players sameTime))"
  by (simp add: sameTime_eval)

text \<open>
  C8, amended. \<open>addPlayer\<close> leaves the roster as it is when the name is empty or
  consists of white space. For every other name the roster grows by one entry, a new
  player object whose name is the trimmed input, whose games-played counter is 0, whose
  on-leave flag is off, whose skill is the neutral tier unless advanced mode is on, and
  whose id is the decimal reading of the clock. The objects already in the roster are
  untouched. The new id differs from the ids in the roster provided none of them is
  the decimal numeral of the same clock reading; in particular it differs from every
  id that was made from another clock reading.
\<close>

theorem addPlayer_effect:
  assumes "wellFormed s"
  shows "((\<forall>c \<in> set (playerName s). isWhiteSpace c) \<longrightarrow> addPlayer now s = s)
       \<and> (\<not> (\<forall>c \<in> set (playerName s). isWhiteSpace c) \<longrightarrow>
            players (addPlayer now s) = players s @ [fresh s]
          \<and> length (players (addPlayer now s)) = length (players s) + 1
          \<and> fresh s \<notin> set (players s)
          \<and> heap (addPlayer now s) (fresh s)
              = \<lparr> id_player = toString now, name = trim (playerName s),
                  skill = (if advancedMode s then playerSkill s else Intermediate),
                  gamesPlayed = 0, isOnLeave = False \<rparr>
          \<and> (\<forall>p \<in> set (players s). heap (addPlayer now s) p = heap s p)
          \<and> ((\<forall>p \<in> set (players s). id_player (heap s p) \<noteq> toString now) \<longrightarrow>
               (\<forall>p \<in> set (players s).
                  id_player (heap (addPlayer now s) p) \<noteq> id_player (heap (addPlayer now s) (fresh s))))
          \<and> (\<forall>p \<in> set (players s). \<forall>t. t \<noteq> now \<and> id_player (heap s p) = toString t \<longrightarrow>
                  id_player (heap (addPlayer now s) p) \<noteq> id_player (heap (addPlayer now s) (fresh s))))"
proof -
  from assms have fr: "fresh s \<notin> set (players s)"
    by (auto simp: wellFormed_def)
  then have old: "\<forall>p \<in> set (players s). p \<noteq> fresh s" by blast
  show ?thesis
  proof (cases "\<forall>c \<in> set (playerName s). isWhiteSpace c")
    case True
    then have "trim (playerName s) = []" by (simp add: trim_Nil_iff)
    with True show ?thesis by (simp add: addPlayer_def)
  next
    case False
    then have "trim (playerName s) \<noteq> []" by (simp add: trim_Nil_iff)
    with False fr old show ?thesis
      by (auto simp: addPlayer_def Let_def toString_inject)
  qed
qed

theorem addPlayer_effect_witness:
  "wellFormed (setPlayerName (js ''B'') duel)
   \<and> \<not> (\<forall>c \<in> set (playerName (setPlayerName (js ''B'') duel)). isWhiteSpace c)
   \<and> list_all (\<lambda>p. id_player (heap (setPlayerName (js ''B'') duel) p) \<noteq> toString 3)
         (players (setPlayerName (js ''B'') duel))
   \<and> length (players (addPlayer 3 (setPlayerName (js ''B'') duel))) = 3
   \<and> list_all (\<lambda>p. id_player (heap (addPlayer 3 (setPlayerName (js ''B'') duel)) p)
                    \<noteq> id_player (heap (addPlayer 3 (setPlayerName (js ''B'') duel))
                                      (fresh (setPlayerName (js ''B'') duel))))
         (players (setPlayerName (js ''B'') duel))
   \<and> list_all isWhiteSpace (playerName (setPlayerName [32, 9] duel))
   \<and> addPlayer 3 (setPlayerName [32, 9] duel) = setPlayerName [32, 9] duel"
proof -
  have wf: "wellFormed duel"
    unfolding duel_def by (simp add: wellFormed_addPlayer wellFormed_setters wellFormed_initialApp)
  then have wf1: "wellFormed (setPlayerName (js ''B'') duel)"
    and wf2: "wellFormed (setPlayerName [32, 9] duel)"
    by (simp_all add: wellFormed_setters)
  have name: "\<not> (\<forall>c \<in> set (playerName (setPlayerName (js ''B'') duel)). isWhiteSpace c)"
    by (simp add: setPlayerName_def js_def isWhiteSpace_def)
  have blank: "\<forall>c \<in> set (playerName (setPlayerName [32, 9] duel)). isWhiteSpace c"
    by (simp add: setPlayerName_def isWhiteSpace_def)
  have ids: "\<forall>p \<in> set (players (setPlayerName (js ''B'') duel)).
         id_player (heap (setPlayerName (js ''B'') duel) p) \<noteq> toString 3"
    by (simp add: setPlayerName_def duel_eval initialApp_def toString_inject)
  have len: "length (players (setPlayerName (js ''B'') duel)) = 2"
    by (simp add: setPlayerName_def duel_fields)
  from addPlayer_effect[OF wf1, of 3] name len
  have "length (players (addPlayer 3 (setPlayerName (js ''B'') duel))) = 3" by simp
  moreover from addPlayer_effect[OF wf1, of 3] name ids
  have "\<forall>p \<in> set (players (setPlayerName (js ''B'') duel)).
          id_player (heap (addPlayer 3 (setPlayerName (js ''B'') duel)) p)
          \<noteq> id_player (heap (addPlayer 3 (setPlayerName (js ''B'') duel))
                            (fresh (setPlayerName (js ''B'') duel)))"
    by blast
  moreover from addPlayer_effect[OF wf2, of 3] blank
  have "addPlayer 3 (setPlayerName [32, 9] duel) = setPlayerName [32, 9] duel" by blast
  ultimately show ?thesis using wf1 name ids blank by (simp add: list_all_iff)
qed

subsection \<open>The court count\<close>

lemma onChangeCourts_cases:
  "parseInt v = None \<Longrightarrow> courts (onChangeCourts v s) = 1"
  "parseInt v = Some 0 \<Longrightarrow> courts (onChangeCourts v s) = 1"
  "parseInt v = Some n \<Longrightarrow> n \<noteq> 0 \<Longrightarrow> courts (onChangeCourts v s) = n"
  by (simp_all add: onChangeCourts_def)

lemma parseInt_minus5: "parseInt (js ''-5'') = Some (- 5)"
  by (simp add: parseInt_def js_def isWhiteSpace_def digitValue_def Let_def)

text \<open>
  C9 at the input \<open>-5\<close>: \<open>parseInt\<close> gives \<open>-5\<close>, which is not falsy, so the court count
  becomes \<open>-5\<close>. With it a validated \<open>generateMatches\<close> produces no match but still
  records a round.
\<close>

theorem onChangeCourts_negative:
  "courts (onChangeCourts (js ''-5'') scenario) = - 5
   \<and> fst (generateMatches (\<lambda>_. 0) 0 (onChangeCourts (js ''-5'') scenario)) = None
   \<and> currentMatches (snd (generateMatches (\<lambda>_. 0) 0 (onChangeCourts (js ''-5'') scenario))) = []
   \<and> roundNumber (snd (generateMatches (\<lambda>_. 0) 0 (onChangeCourts (js ''-5'') scenario))) = 2"
proof -
  let ?s = "onChangeCourts (js ''-5'') scenario"
  have c: "courts ?s = - 5" by (simp add: onChangeCourts_def parseInt_minus5)
  have a: "activePlayers ?s = activePlayers scenario" "playingType ?s = Double" "roundNumber ?s = 1"
    by (simp_all add: onChangeCourts_def activePlayers_def scenario_def initialApp_def)
  have v: "\<not> int (length (activePlayers ?s)) < (if playingType ?s = Single then 2 else 4)"
    unfolding a by (simp add: scenario_eval)
  have u: "courtsUsed ?s = 0" by (simp add: courtsUsed_def c)
  show ?thesis
    using c a(3) by (simp add: generateMatches_valid[OF v] u)
qed

subsection \<open>Loading the saved state\<close>

lemma getField_setField:
  "getField (setField k v kv) k' = (if k' = k then v else getField kv k')"
  by (induction kv) (auto simp: getField_def)

lemma field_names_distinct:
  "js ''round'' \<noteq> js ''timestamp''" "js ''matches'' \<noteq> js ''timestamp''"
  by (simp_all add: js_def)

lemma reviveEntry_cases:
  "reviveEntry h = (if entryThrows h then Inl TypeError else Inr (revived h))"
  by (cases h) (simp_all add: reviveEntry_def entryThrows_def revived_def storedTimestamp_def)

lemma mapAll_reviveEntry:
  "mapAll reviveEntry es = (if list_ex entryThrows es then Inl TypeError else Inr (map revived es))"
  by (induction es) (simp_all add: reviveEntry_cases)

lemma historyMap_cases:
  "historyMap JUndefined = Inr JUndefined"
  "historyMap JNull = Inr JUndefined"
  "historyMap (JArray es) =
     (if list_ex entryThrows es then Inl TypeError else Inr (JArray (map revived es)))"
  "historyMap (JBool b) = Inl TypeError"
  "historyMap (JNumber n) = Inl TypeError"
  "historyMap (JString t) = Inl TypeError"
  "historyMap (JObject kv) = Inl TypeError"
  "historyMap (JDate d) = Inl TypeError"
  by (simp_all add: historyMap_def mapAll_reviveEntry)

lemma revived_stored:
  assumes "isStoredEntry h"
  shows "isMatchHistory (revived h)"
proof -
  from assms obtain kv where h: "h = JObject kv"
    by (cases h) (simp_all add: isStoredEntry_def)
  with assms show ?thesis
    by (simp add: revived_def isStoredEntry_def isMatchHistory_def getField_setField
        field_names_distinct isDate_def)
qed

lemma historyMap_shape:
  assumes "\<not> truthy hs \<or> isArrayOf isStoredEntry hs"
  shows "(\<exists>e. historyMap hs = Inl e)
       \<or> (\<exists>hm. historyMap hs = Inr hm \<and> isArrayOf isMatchHistory (orElse hm (JArray [])))"
proof (cases hs)
  case (JArray es)
  with assms have "list_all isStoredEntry es" by (simp add: truthy_def isArrayOf_def)
  then have "list_all isMatchHistory (map revived es)"
    by (simp add: list_all_iff revived_stored)
  with JArray show ?thesis
    by (simp add: historyMap_cases orElse_def truthy_def isArrayOf_def)
qed (use assms in \<open>auto simp: historyMap_cases orElse_def truthy_def isArrayOf_def\<close>)

lemma isSavedState_default: "isSavedState defaultState"
  by (simp add: isSavedState_def defaultState_def isArrayOf_def isNumber_def isPlayingType_def
      isBoolean_def)

lemma orElse_shape:
  assumes "\<not> truthy v \<or> P v" and "P d"
  shows "P (orElse v d)"
  using assms by (auto simp: orElse_def)

lemma fromParsed_object:
  "fromParsed (JObject kv) =
     (case historyMap (getField kv (js ''history'')) of
        Inl e \<Rightarrow> Inl e
      | Inr hm \<Rightarrow>
          Inr \<lparr> players_saved = orElse (getField kv (js ''players'')) (JArray []),
                history_saved = orElse hm (JArray []),
                roundNumber_saved = orElse (getField kv (js ''roundNumber'')) (JNumber (Finite 1)),
                courts_saved = orElse (getField kv (js ''courts'')) (JNumber (Finite 1)),
                playingType_saved = orElse (getField kv (js ''playingType'')) (JString (js ''double'')),
                advancedMode_saved = orElse (getField kv (js ''advancedMode'')) (JBool False) \<rparr>)"
  by (simp add: fromParsed_def split: sum.splits)

lemma fromParsed_primitive:
  "fromParsed JNull = Inl TypeError"
  "fromParsed JUndefined = Inl TypeError"
  "fromParsed (JBool b) = Inr defaultState"
  "fromParsed (JNumber n) = Inr defaultState"
  "fromParsed (JString t) = Inr defaultState"
  "fromParsed (JArray xs) = Inr defaultState"
  by (simp_all add: fromParsed_def historyMap_def orElse_def truthy_def defaultState_def)

lemma fromParsed_shape:
  assumes "fieldsFalsyOrTyped kv"
  shows "case fromParsed (JObject kv) of Inl e \<Rightarrow> True | Inr r \<Rightarrow> isSavedState r"
proof -
  from assms have h: "\<not> truthy (getField kv (js ''history''))
      \<or> isArrayOf isStoredEntry (getField kv (js ''history''))"
    by (simp add: fieldsFalsyOrTyped_def)
  have d: "isArrayOf isPlayer (JArray [])" "isNumber (JNumber (Finite 1))"
    "isPlayingType (JString (js ''double''))" "isBoolean (JBool False)"
    by (simp_all add: isArrayOf_def isNumber_def isPlayingType_def isBoolean_def)
  from assms have
    "isArrayOf isPlayer (orElse (getField kv (js ''players'')) (JArray []))"
    "isNumber (orElse (getField kv (js ''roundNumber'')) (JNumber (Finite 1)))"
    "isNumber (orElse (getField kv (js ''courts'')) (JNumber (Finite 1)))"
    "isPlayingType (orElse (getField kv (js ''playingType'')) (JString (js ''double'')))"
    "isBoolean (orElse (getField kv (js ''advancedMode'')) (JBool False))"
    unfolding fieldsFalsyOrTyped_def by (auto intro!: orElse_shape d)
  with historyMap_shape[OF h] show ?thesis
    unfolding fromParsed_object by (auto simp: isSavedState_def)
qed

text \<open>
  C7, as stated, fails in its last part. The stored text \<open>{"players":5}\<close> parses, no
  exception is raised, and \<open>5 || []\<close> is 5: the loader returns a state whose roster is
  the number 5.
\<close>

theorem loadState_keeps_wrong_shape:
  "players_saved (loadState parseStored (Inr (Some storedPlayers5))) = JNumber (Finite 5)
   \<and> \<not> isSavedState (loadState parseStored (Inr (Some storedPlayers5)))"
proof -
  have ne: "storedPlayers5 \<noteq> []" by (simp add: storedPlayers5_def)
  have r: "players_saved (loadState parseStored (Inr (Some storedPlayers5))) = JNumber (Finite 5)"
    using ne
    by (simp add: loadState_def parseStored_def fromParsed_object getField_def historyMap_def
        orElse_def truthy_def js_def)
  then show ?thesis by (simp add: isSavedState_def isArrayOf_def)
qed

text \<open>
  C7, amended. The loader returns a state for every input. It is the fresh default
  session when the key is absent, when reading the store throws, when the stored text
  is empty or does not parse, when the text parses to \<open>null\<close> or to a boolean, a number,
  a string or an array, and when building the state from a stored object throws: that
  is when its history is neither missing, \<open>null\<close> nor an array, or is an array
  with an entry that is \<open>null\<close> or whose time stamp cannot be converted to a date. The
  default session is structurally valid. In every other case the text has parsed to an
  object and every field of the result is the stored value if that is truthy and the
  default otherwise, whatever the type of the stored value; the history, if stored as
  an array, is that array with the time stamp of each entry replaced by a date.
  So the result is structurally valid when every field of the stored object is falsy
  or has the declared shape.
\<close>

theorem loadState_defaults_and_shape:
  "loadState parse (Inr None) = defaultState
   \<and> loadState parse (Inl e) = defaultState
   \<and> loadState parse (Inr (Some [])) = defaultState
   \<and> (parse saved = Inl e \<longrightarrow> loadState parse (Inr (Some saved)) = defaultState)
   \<and> (parse saved = Inr JNull \<longrightarrow> loadState parse (Inr (Some saved)) = defaultState)
   \<and> (parse saved = Inr (JBool b) \<or> parse saved = Inr (JNumber n)
        \<or> parse saved = Inr (JString t) \<or> parse saved = Inr (JArray xs) \<longrightarrow>
        loadState parse (Inr (Some saved)) = defaultState)
   \<and> isSavedState defaultState
   \<and> (saved \<noteq> [] \<and> parse saved = Inr (JObject kv)
        \<and> (getField kv (js ''history'') = JUndefined \<or> getField kv (js ''history'') = JNull) \<longrightarrow>
        loadState parse (Inr (Some saved)) =
          \<lparr> players_saved = orElse (getField kv (js ''players'')) (JArray []),
            history_saved = JArray [],
            roundNumber_saved = orElse (getField kv (js ''roundNumber'')) (JNumber (Finite 1)),
            courts_saved = orElse (getField kv (js ''courts'')) (JNumber (Finite 1)),
            playingType_saved = orElse (getField kv (js ''playingType'')) (JString (js ''double'')),
            advancedMode_saved = orElse (getField kv (js ''advancedMode'')) (JBool False) \<rparr>)
   \<and> (saved \<noteq> [] \<and> parse saved = Inr (JObject kv)
        \<and> getField kv (js ''history'') = JArray es \<and> \<not> list_ex entryThrows es \<longrightarrow>
        loadState parse (Inr (Some saved)) =
          \<lparr> players_saved = orElse (getField kv (js ''players'')) (JArray []),
            history_saved = JArray (map revived es),
            roundNumber_saved = orElse (getField kv (js ''roundNumber'')) (JNumber (Finite 1)),
            courts_saved = orElse (getField kv (js ''courts'')) (JNumber (Finite 1)),
            playingType_saved = orElse (getField kv (js ''playingType'')) (JString (js ''double'')),
            advancedMode_saved = orElse (getField kv (js ''advancedMode'')) (JBool False) \<rparr>)
   \<and> (parse saved = Inr (JObject kv)
        \<and> getField kv (js ''history'') = JArray es \<and> list_ex entryThrows es \<longrightarrow>
        loadState parse (Inr (Some saved)) = defaultState)
   \<and> (parse saved = Inr (JObject kv)
        \<and> (getField kv (js ''history'') = JBool b \<or> getField kv (js ''history'') = JNumber n
           \<or> getField kv (js ''history'') = JString t \<or> getField kv (js ''history'') = JObject kv') \<longrightarrow>
        loadState parse (Inr (Some saved)) = defaultState)
   \<and> (parse saved = Inr (JObject kv) \<and> fieldsFalsyOrTyped kv \<longrightarrow>
        isSavedState (loadState parse (Inr (Some saved))))"
proof -
  have revive: "reviveEntry h = (if entryThrows h then Inl TypeError else Inr (revived h))" for h
    by (cases h) (simp_all add: reviveEntry_def entryThrows_def revived_def storedTimestamp_def)
  have mapped: "mapAll reviveEntry hs
      = (if list_ex entryThrows hs then Inl TypeError else Inr (map revived hs))" for hs
    by (induction hs) (simp_all add: revive)
  have hist: "historyMap JUndefined = Inr JUndefined" "historyMap JNull = Inr JUndefined"
    "historyMap (JArray hs) =
       (if list_ex entryThrows hs then Inl TypeError else Inr (JArray (map revived hs)))"
    "historyMap (JBool b) = Inl TypeError" "historyMap (JNumber n) = Inl TypeError"
    "historyMap (JString t) = Inl TypeError" "historyMap (JObject kv') = Inl TypeError" for hs
    by (simp_all add: historyMap_def mapped)
  have obj: "fromParsed (JObject kv) =
     (case historyMap (getField kv (js ''history'')) of
        Inl e \<Rightarrow> Inl e
      | Inr hm \<Rightarrow>
          Inr \<lparr> players_saved = orElse (getField kv (js ''players'')) (JArray []),
                history_saved = orElse hm (JArray []),
                roundNumber_saved = orElse (getField kv (js ''roundNumber'')) (JNumber (Finite 1)),
                courts_saved = orElse (getField kv (js ''courts'')) (JNumber (Finite 1)),
                playingType_saved = orElse (getField kv (js ''playingType'')) (JString (js ''double'')),
                advancedMode_saved = orElse (getField kv (js ''advancedMode'')) (JBool False) \<rparr>)"
    by (simp add: fromParsed_def split: sum.splits)
  have prim: "fromParsed JNull = Inl TypeError" "fromParsed (JBool b) = Inr defaultState"
    "fromParsed (JNumber n) = Inr defaultState" "fromParsed (JString t) = Inr defaultState"
    "fromParsed (JArray xs) = Inr defaultState"
    by (simp_all add: fromParsed_def historyMap_def orElse_def truthy_def defaultState_def)
  show ?thesis
  proof (intro conjI impI)
  show "isSavedState defaultState" by (rule isSavedState_default)
next
  assume "parse saved = Inr (JBool b) \<or> parse saved = Inr (JNumber n)
        \<or> parse saved = Inr (JString t) \<or> parse saved = Inr (JArray xs)"
  then show "loadState parse (Inr (Some saved)) = defaultState"
    by (auto simp: loadState_def prim)
next
  assume "saved \<noteq> [] \<and> parse saved = Inr (JObject kv)
        \<and> (getField kv (js ''history'') = JUndefined \<or> getField kv (js ''history'') = JNull)"
  then show "loadState parse (Inr (Some saved)) =
          \<lparr> players_saved = orElse (getField kv (js ''players'')) (JArray []),
            history_saved = JArray [],
            roundNumber_saved = orElse (getField kv (js ''roundNumber'')) (JNumber (Finite 1)),
            courts_saved = orElse (getField kv (js ''courts'')) (JNumber (Finite 1)),
            playingType_saved = orElse (getField kv (js ''playingType'')) (JString (js ''double'')),
            advancedMode_saved = orElse (getField kv (js ''advancedMode'')) (JBool False) \<rparr>"
    by (auto simp: loadState_def obj hist orElse_def truthy_def)
next
  assume "saved \<noteq> [] \<and> parse saved = Inr (JObject kv)
        \<and> getField kv (js ''history'') = JArray es \<and> \<not> list_ex entryThrows es"
  then show "loadState parse (Inr (Some saved)) =
          \<lparr> players_saved = orElse (getField kv (js ''players'')) (JArray []),
            history_saved = JArray (map revived es),
            roundNumber_saved = orElse (getField kv (js ''roundNumber'')) (JNumber (Finite 1)),
            courts_saved = orElse (getField kv (js ''courts'')) (JNumber (Finite 1)),
            playingType_saved = orElse (getField kv (js ''playingType'')) (JString (js ''double'')),
            advancedMode_saved = orElse (getField kv (js ''advancedMode'')) (JBool False) \<rparr>"
    by (simp add: loadState_def obj hist orElse_def truthy_def)
next
  assume "parse saved = Inr (JObject kv)
        \<and> getField kv (js ''history'') = JArray es \<and> list_ex entryThrows es"
  then show "loadState parse (Inr (Some saved)) = defaultState"
    by (simp add: loadState_def obj hist)
next
  assume "parse saved = Inr (JObject kv)
        \<and> (getField kv (js ''history'') = JBool b \<or> getField kv (js ''history'') = JNumber n
           \<or> getField kv (js ''history'') = JString t \<or> getField kv (js ''history'') = JObject kv')"
  then show "loadState parse (Inr (Some saved)) = defaultState"
    by (auto simp: loadState_def obj hist)
next
  assume a: "parse saved = Inr (JObject kv) \<and> fieldsFalsyOrTyped kv"
  with fromParsed_shape[of kv] show "isSavedState (loadState parse (Inr (Some saved)))"
    by (auto simp: loadState_def isSavedState_default split: sum.splits)
  qed (simp_all add: loadState_def prim)
qed

lemma stored_texts:
  "storedCourts3 \<noteq> []" "storedRound \<noteq> []"
  "parseStored [120] = Inl SyntaxError"
  "parseStored (js ''null'') = Inr JNull"
  "parseStored (js ''7'') = Inr (JNumber (Finite 7))"
  "parseStored storedCourts3 = Inr (JObject [(js ''courts'', JNumber (Finite 3))])"
  "parseStored storedHistory5 = Inr (JObject [(js ''history'', JNumber (Finite 5))])"
  "parseStored storedRound = Inr (JObject parsedRound)"
  "parseStored storedBadStamp = Inr (JObject parsedBadStamp)"
  by (simp_all add: parseStored_def storedCourts3_def storedPlayers5_def storedHistory5_def
      storedRound_def storedBadStamp_def quoted_def js_def)

lemma stored_fields:
  "getField [(js ''courts'', JNumber (Finite 3))] (js ''history'') = JUndefined"
  "getField [(js ''courts'', JNumber (Finite 3))] (js ''courts'') = JNumber (Finite 3)"
  "getField [(js ''courts'', JNumber (Finite 3))] (js ''players'') = JUndefined"
  "getField [(js ''courts'', JNumber (Finite 3))] (js ''roundNumber'') = JUndefined"
  "getField [(js ''courts'', JNumber (Finite 3))] (js ''playingType'') = JUndefined"
  "getField [(js ''courts'', JNumber (Finite 3))] (js ''advancedMode'') = JUndefined"
  "getField [(js ''history'', JNumber (Finite 5))] (js ''history'') = JNumber (Finite 5)"
  "getField parsedRound (js ''history'') =
     JArray [JObject [(js ''round'', JNumber (Finite 1)), (js ''matches'', JArray []),
                      (js ''timestamp'', JString (js ''t''))]]"
  "getField parsedRound (js ''courts'') = JNumber (Finite 3)"
  "getField parsedRound (js ''players'') = JUndefined"
  "getField parsedRound (js ''roundNumber'') = JUndefined"
  "getField parsedRound (js ''playingType'') = JUndefined"
  "getField parsedRound (js ''advancedMode'') = JUndefined"
  "getField parsedBadStamp (js ''history'') =
     JArray [JObject [(js ''timestamp'', JObject [(js ''toString'', JNumber (Finite 1))])]]"
  by (simp_all add: getField_def parsedRound_def parsedBadStamp_def js_def)

lemma stored_entries:
  "\<not> list_ex entryThrows [JObject [(js ''round'', JNumber (Finite 1)), (js ''matches'', JArray []),
                                    (js ''timestamp'', JString (js ''t''))]]"
  "map revived [JObject [(js ''round'', JNumber (Finite 1)), (js ''matches'', JArray []),
                         (js ''timestamp'', JString (js ''t''))]]
   = [JObject [(js ''round'', JNumber (Finite 1)), (js ''matches'', JArray []),
               (js ''timestamp'', JDate (JString (js ''t'')))]]"
  "list_ex entryThrows [JObject [(js ''timestamp'', JObject [(js ''toString'', JNumber (Finite 1))])]]"
  by (simp_all add: entryThrows_def storedTimestamp_def revived_def getField_def js_def)

lemma stored_entry_typed:
  "isStoredEntry (JObject [(js ''round'', JNumber (Finite 1)), (js ''matches'', JArray []),
                           (js ''timestamp'', JString (js ''t''))])"
  by (simp add: isStoredEntry_def getField_def js_def isNumber_def isArrayOf_def)

lemma parsedRound_typed: "fieldsFalsyOrTyped parsedRound"
  by (simp add: fieldsFalsyOrTyped_def stored_fields truthy_def isNumber_def isArrayOf_def
      stored_entry_typed)

theorem loadState_defaults_and_shape_witness:
  "parseStored [120] = Inl SyntaxError
   \<and> loadState parseStored (Inr (Some [120])) = defaultState
   \<and> parseStored (js ''null'') = Inr JNull
   \<and> loadState parseStored (Inr (Some (js ''null''))) = defaultState
   \<and> parseStored (js ''7'') = Inr (JNumber (Finite 7))
   \<and> loadState parseStored (Inr (Some (js ''7''))) = defaultState
   \<and> parseStored storedCourts3 = Inr (JObject [(js ''courts'', JNumber (Finite 3))])
   \<and> loadState parseStored (Inr (Some storedCourts3)) = defaultState \<lparr> courts_saved := JNumber (Finite 3) \<rparr>
   \<and> parseStored storedRound = Inr (JObject parsedRound)
   \<and> loadState parseStored (Inr (Some storedRound))
       = defaultState \<lparr> courts_saved := JNumber (Finite 3),
                        history_saved :=
                          JArray [JObject [(js ''round'', JNumber (Finite 1)), (js ''matches'', JArray []),
                                           (js ''timestamp'', JDate (JString (js ''t'')))]] \<rparr>
   \<and> fieldsFalsyOrTyped parsedRound
   \<and> isSavedState (loadState parseStored (Inr (Some storedRound)))
   \<and> parseStored storedBadStamp = Inr (JObject parsedBadStamp)
   \<and> loadState parseStored (Inr (Some storedBadStamp)) = defaultState
   \<and> parseStored storedHistory5 = Inr (JObject [(js ''history'', JNumber (Finite 5))])
   \<and> loadState parseStored (Inr (Some storedHistory5)) = defaultState"
proof -
  note T = loadState_defaults_and_shape[where parse = parseStored]
  have w1: "loadState parseStored (Inr (Some [120])) = defaultState"
    using T[where saved = "[120]" and e = SyntaxError] stored_texts by blast
  have w2: "loadState parseStored (Inr (Some (js ''null''))) = defaultState"
    using T[where saved = "js ''null''"] stored_texts by blast
  have w3: "loadState parseStored (Inr (Some (js ''7''))) = defaultState"
    using T[where saved = "js ''7''" and n = "Finite 7"] stored_texts by blast
  have w4: "loadState parseStored (Inr (Some storedCourts3)) = defaultState \<lparr> courts_saved := JNumber (Finite 3) \<rparr>"
    using T[where saved = storedCourts3 and kv = "[(js ''courts'', JNumber (Finite 3))]"]
      stored_texts stored_fields
    by (simp add: orElse_def truthy_def defaultState_def)
  have w5: "loadState parseStored (Inr (Some storedRound))
       = defaultState \<lparr> courts_saved := JNumber (Finite 3),
                        history_saved :=
                          JArray [JObject [(js ''round'', JNumber (Finite 1)), (js ''matches'', JArray []),
                                           (js ''timestamp'', JDate (JString (js ''t'')))]] \<rparr>"
    using T[where saved = storedRound and kv = parsedRound
        and es = "[JObject [(js ''round'', JNumber (Finite 1)), (js ''matches'', JArray []),
                            (js ''timestamp'', JString (js ''t''))]]"]
      stored_texts stored_fields stored_entries(1,2)
    by (simp add: orElse_def truthy_def defaultState_def)
  have w6: "isSavedState (loadState parseStored (Inr (Some storedRound)))"
    using T[where saved = storedRound and kv = parsedRound] stored_texts parsedRound_typed
    by blast
  have w7: "loadState parseStored (Inr (Some storedBadStamp)) = defaultState"
    using T[where saved = storedBadStamp and kv = parsedBadStamp
        and es = "[JObject [(js ''timestamp'', JObject [(js ''toString'', JNumber (Finite 1))])]]"]
      stored_texts stored_fields stored_entries(3)
    by blast
  have w8: "loadState parseStored (Inr (Some storedHistory5)) = defaultState"
    using T[where saved = storedHistory5 and kv = "[(js ''history'', JNumber (Finite 5))]" and n = "Finite 5"]
      stored_texts stored_fields
    by blast
  from w1 w2 w3 w4 w5 w6 w7 w8 stored_texts parsedRound_typed show ?thesis by simp
qed

end
